theory Spec2Isabelle
  imports Main "HOL-Library.Sublist"
begin

section \<open>Python values used by the backup program\<close>

text \<open>
  A Python \<^verbatim>\<open>str\<close> is a sequence of Unicode code points, and \<^verbatim>\<open>len\<close>,
  \<^verbatim>\<open>replace\<close>, slicing and \<^verbatim>\<open>split\<close> all work on code points. A string
  is therefore a list of code points; \<open>u\<close> turns an ASCII literal into one.
\<close>

type_synonym pystr = "nat list"

definition u :: "string \<Rightarrow> pystr" where
  "u s = map of_char s"

text \<open>
  The exceptions the program can meet. \<open>RequestException\<close> stands for
  \<^verbatim>\<open>requests.exceptions.RequestException\<close> and all its subclasses (connection
  errors, timeouts, \<^verbatim>\<open>HTTPError\<close> and, in recent versions of the library, the JSON
  decoding error of \<^verbatim>\<open>Response.json\<close>). In \<^verbatim>\<open>requests\<close> it derives from
  \<^verbatim>\<open>IOError\<close>, which is \<^verbatim>\<open>OSError\<close>.
\<close>

datatype py_error =
    RequestException
  | OSError
  | NameError pystr
  | AttributeError
  | TypeError
  | ValueError
  | OverflowError
  | UnicodeEncodeError

definition is_RequestException :: "py_error \<Rightarrow> bool" where
  "is_RequestException e = (e = RequestException)"

definition is_IOError :: "py_error \<Rightarrow> bool" where
  "is_IOError e = (e = OSError \<or> e = RequestException)"

section \<open>Deriving the file name\<close>

text \<open>
  \<^verbatim>\<open>text.replace(char, '_')\<close> for a one-character \<^verbatim>\<open>char\<close>: every occurrence is
  replaced.
\<close>

definition py_replace1 :: "nat \<Rightarrow> nat \<Rightarrow> pystr \<Rightarrow> pystr" where
  "py_replace1 old new text = map (\<lambda>c. if c = old then new else c) text"

text \<open>
  The string \<^verbatim>\<open>'<>:"/\\|?* '\<close> of the source: the double quote is code point
  \<open>0x22\<close>, the backslash \<open>0x5C\<close>, and the last character is the space.
\<close>

definition invalid_chars :: pystr where
  "invalid_chars = u ''<>:'' @ [0x22] @ u ''/'' @ [0x5C] @ u ''|?* ''"

definition underscore :: nat where
  "underscore = of_char (CHR ''_'')"

text \<open>
  \<^verbatim>\<open>BackupManager._sanitize_filename\<close>: the loop over \<^verbatim>\<open>invalid_chars\<close> rebinds
  \<^verbatim>\<open>text\<close> at each character, then the result is cut by \<^verbatim>\<open>text[:100]\<close>.
\<close>

definition sanitize_filename :: "pystr \<Rightarrow> pystr" where
  "sanitize_filename text =
     take 100 (foldl (\<lambda>t char. py_replace1 char underscore t) text invalid_chars)"

section \<open>JSON values and the operations the program applies to them\<close>

text \<open>
  What \<^verbatim>\<open>Response.json()\<close> returns. A dictionary is an association list read with
  \<open>map_of\<close>. The program never tests a float and computes with one only to hand the
  result to the progress bar, so a float is kept by its kind: finite, or one of the
  values the JSON literals \<^verbatim>\<open>Infinity\<close>, \<^verbatim>\<open>-Infinity\<close> and \<^verbatim>\<open>NaN\<close> denote.
\<close>

datatype pyfloat = Finite | Infinity | NegInfinity | NaN

datatype json =
    JNull
  | JBool bool
  | JInt int
  | JFloat pyfloat
  | JStr pystr
  | JArr "json list"
  | JObj "(pystr \<times> json) list"

text \<open>
  \<^verbatim>\<open>d.get(key, default)\<close>: only a dictionary has the method; on any other JSON value
  the attribute lookup raises \<^verbatim>\<open>AttributeError\<close>.
\<close>

definition py_get :: "json \<Rightarrow> pystr \<Rightarrow> json \<Rightarrow> py_error + json" where
  "py_get d key dflt =
     (case d of
        JObj kvs \<Rightarrow> Inr (case map_of kvs key of None \<Rightarrow> dflt | Some v \<Rightarrow> v)
      | _ \<Rightarrow> Inl AttributeError)"

text \<open>
  Numbers, as the subtraction \<^verbatim>\<open>progress - last_progress\<close> sees them: \<^verbatim>\<open>int\<close>,
  \<^verbatim>\<open>bool\<close> (a subclass of \<^verbatim>\<open>int\<close>) and \<^verbatim>\<open>float\<close>; any other operand raises
  \<^verbatim>\<open>TypeError\<close>.
\<close>

datatype pynum = PInt int | PFloat pyfloat

definition to_num :: "json \<Rightarrow> pynum option" where
  "to_num j =
     (case j of
        JInt i \<Rightarrow> Some (PInt i)
      | JBool b \<Rightarrow> Some (PInt (if b then 1 else 0))
      | JFloat f \<Rightarrow> Some (PFloat f)
      | _ \<Rightarrow> None)"

text \<open>
  A subtraction of two numbers raises in one case: an \<^verbatim>\<open>int\<close> meets a \<^verbatim>\<open>float\<close>
  and is too large to be converted to one (\<^verbatim>\<open>OverflowError\<close>). The conversion rounds
  to the nearest double, so it fails from \<open>2^1024 - 2^970\<close> on, half way between the
  largest double and \<open>2^1024\<close>. The difference itself goes to the progress bar only and
  is not kept.
\<close>

definition int_fits_float :: "int \<Rightarrow> bool" where
  "int_fits_float i = (\<bar>i\<bar> < 2 ^ 1024 - 2 ^ 970)"

fun py_sub_raises :: "pynum \<Rightarrow> pynum \<Rightarrow> py_error option" where
  "py_sub_raises (PInt a) (PInt b) = None"
| "py_sub_raises (PInt a) (PFloat g) = (if int_fits_float a then None else Some OverflowError)"
| "py_sub_raises (PFloat f) (PInt b) = (if int_fits_float b then None else Some OverflowError)"
| "py_sub_raises (PFloat f) (PFloat g) = None"

text \<open>
  \<^verbatim>\<open>s.split(sep)\<close>: the pieces between the occurrences of \<^verbatim>\<open>sep\<close>, found from left
  to right without overlap; \<open>acc\<close> is the piece being read, reversed. An empty
  separator raises \<^verbatim>\<open>ValueError\<close>, and only a string has the method.
\<close>

function split_from :: "pystr \<Rightarrow> pystr \<Rightarrow> pystr \<Rightarrow> pystr list" where
  "split_from sep acc [] = [rev acc]"
| "split_from sep acc (c # cs) =
     (if sep \<noteq> [] \<and> prefix sep (c # cs)
      then rev acc # split_from sep [] (drop (length sep) (c # cs))
      else split_from sep (c # acc) cs)"
  by pat_completeness auto
termination
  by (relation "measure (\<lambda>(sep, acc, s). length s)") auto

definition py_split :: "json \<Rightarrow> pystr \<Rightarrow> py_error + pystr list" where
  "py_split j sep =
     (case j of
        JStr s \<Rightarrow> (if sep = [] then Inl ValueError else Inr (split_from sep [] s))
      | _ \<Rightarrow> Inl AttributeError)"

section \<open>The outside world\<close>

text \<open>
  Every call of \<^verbatim>\<open>requests\<close> either raises or returns a response. Of a response the
  program reads the status code, the headers (a case-insensitive dictionary, kept here
  under lower-case names) and the outcome of \<^verbatim>\<open>json()\<close>, which may raise.
\<close>

datatype http_method = GET | PUT | POST | HEAD

record request =
  req_method :: http_method
  req_url :: pystr
  req_headers :: "(pystr \<times> pystr) list"
  req_params :: "(pystr \<times> pystr) list"

record response =
  status_code :: int
  headers :: "(pystr \<times> pystr) list"
  json_body :: "py_error + json"

type_synonym http_outcome = "py_error + response"

text \<open>
  The world holds what the remote services, the file system and the progress bar will
  answer, in the order of the calls still to come, the string \<^verbatim>\<open>time.strftime\<close>
  returns, and a trace of every request, sleep and write so far. The program is
  sequential, so every behaviour of its surroundings during one run is such a script.
  A script that runs out answers with a connection failure (a \<open>RequestException\<close>),
  respectively with a write and a bar call that raise nothing.
\<close>

datatype event =
    Http request
  | Sleep nat
  | WriteFile pystr json

record world =
  http_script :: "http_outcome list"
  write_script :: "py_error option list"
  bar_script :: "py_error option list"
  now :: pystr
  trace :: "event list"

definition http_call :: "request \<Rightarrow> world \<Rightarrow> http_outcome \<times> world" where
  "http_call req w =
     (case http_script w of
        [] \<Rightarrow> (Inl RequestException, w\<lparr>trace := trace w @ [Http req]\<rparr>)
      | r # rs \<Rightarrow> (r, w\<lparr>http_script := rs, trace := trace w @ [Http req]\<rparr>))"

definition sleep :: "nat \<Rightarrow> world \<Rightarrow> world" where
  "sleep n w = w\<lparr>trace := trace w @ [Sleep n]\<rparr>"

text \<open>\<^verbatim>\<open>open(name, 'w')\<close> followed by \<^verbatim>\<open>json.dump\<close>: \<open>None\<close> when nothing is raised.\<close>

definition write_json_file :: "pystr \<Rightarrow> json \<Rightarrow> world \<Rightarrow> py_error option \<times> world" where
  "write_json_file name data w =
     (case write_script w of
        [] \<Rightarrow> (None, w\<lparr>trace := trace w @ [WriteFile name data]\<rparr>)
      | r # rs \<Rightarrow> (r, w\<lparr>write_script := rs, trace := trace w @ [WriteFile name data]\<rparr>))"

text \<open>
  A call of the \<^verbatim>\<open>tqdm\<close> progress bar: its construction, an \<^verbatim>\<open>update\<close>, or the
  \<^verbatim>\<open>close\<close> on leaving the \<^verbatim>\<open>with\<close> block. The bar formats and writes what it
  displays, which depends on the clock and on floating-point arithmetic and may raise (on
  a position that has become infinite or not a number, for one); whether a call raises
  is taken from the world. \<open>None\<close> when nothing is raised.
\<close>

definition bar_call :: "world \<Rightarrow> py_error option \<times> world" where
  "bar_call w =
     (case bar_script w of
        [] \<Rightarrow> (None, w)
      | r # rs \<Rightarrow> (r, w\<lparr>bar_script := rs\<rparr>))"

text \<open>\<^verbatim>\<open>Response.raise_for_status\<close>: an \<^verbatim>\<open>HTTPError\<close> for a 4xx or 5xx status.\<close>

definition raise_for_status :: "response \<Rightarrow> py_error + unit" where
  "raise_for_status r =
     (if 400 \<le> status_code r \<and> status_code r < 600 then Inl RequestException else Inr ())"

text \<open>
  The handler \<^verbatim>\<open>except requests.exceptions.RequestException\<close> of the three client
  methods: the error is logged and the method returns \<^verbatim>\<open>False\<close>; any other exception
  goes on to the caller. Logging is not modelled.
\<close>

definition except_RequestException :: "py_error \<Rightarrow> world \<Rightarrow> (py_error + bool) \<times> world" where
  "except_RequestException e w = (if is_RequestException e then (Inr False, w) else (Inl e, w))"

section \<open>\<^verbatim>\<open>YandexDiskClient\<close>\<close>

record yandex_client =
  token :: pystr
  client_headers :: "(pystr \<times> pystr) list"

definition YANDEX_BASE_URL :: pystr where
  "YANDEX_BASE_URL = u ''https://cloud-api.yandex.net/v1/disk''"

definition YandexDiskClient_init :: "pystr \<Rightarrow> yandex_client" where
  "YandexDiskClient_init tok =
     \<lparr>token = tok, client_headers = [(u ''Authorization'', u ''OAuth '' @ tok)]\<rparr>"

definition create_folder :: "yandex_client \<Rightarrow> pystr \<Rightarrow> world \<Rightarrow> (py_error + bool) \<times> world" where
  "create_folder self folder_name w =
     (let url = YANDEX_BASE_URL @ u ''/resources'';
          params = [(u ''path'', folder_name)]
      in case http_call \<lparr>req_method = GET, req_url = url, req_headers = client_headers self,
                         req_params = [(u ''path'', folder_name)]\<rparr> w of
           (Inl e, w1) \<Rightarrow> except_RequestException e w1
         | (Inr check_response, w1) \<Rightarrow>
             if status_code check_response = 200 then (Inr True, w1)
             else
               (case http_call \<lparr>req_method = PUT, req_url = url, req_headers = client_headers self,
                                req_params = params\<rparr> w1 of
                  (Inl e, w2) \<Rightarrow> except_RequestException e w2
                | (Inr response, w2) \<Rightarrow>
                    if status_code response = 201 \<or> status_code response = 409
                    then (Inr True, w2)
                    else
                      (case json_body response of
                         Inl e \<Rightarrow> except_RequestException e w2
                       | Inr _ \<Rightarrow> (Inr False, w2))))"

text \<open>
  The loop of \<^verbatim>\<open>_check_upload_status\<close>, with the number of rounds of
  \<^verbatim>\<open>range(30)\<close> still to run. Each \<^verbatim>\<open>pbar.update\<close> first forms its argument, a
  subtraction that raises on an operand that is not a number, then calls the bar. The
  handler of the round takes a \<open>RequestException\<close> from anywhere in the round. Leaving
  the loop gives the \<^verbatim>\<open>return False\<close> after it.
\<close>

fun poll_loop :: "yandex_client \<Rightarrow> pystr \<Rightarrow> nat \<Rightarrow> pynum \<Rightarrow> world \<Rightarrow> (py_error + bool) \<times> world" where
  "poll_loop self url 0 last_progress w = (Inr False, w)"
| "poll_loop self url (Suc n) last_progress w =
     (case http_call \<lparr>req_method = GET, req_url = url, req_headers = client_headers self,
                      req_params = []\<rparr> w of
        (Inl e, w1) \<Rightarrow> except_RequestException e w1
      | (Inr response, w1) \<Rightarrow>
          (case raise_for_status response of
             Inl e \<Rightarrow> except_RequestException e w1
           | Inr _ \<Rightarrow>
               (case json_body response of
                  Inl e \<Rightarrow> except_RequestException e w1
                | Inr data \<Rightarrow>
                    (case py_get data (u ''status'') JNull of
                       Inl e \<Rightarrow> except_RequestException e w1
                     | Inr status \<Rightarrow>
                         if status = JStr (u ''success'') then
                           (case py_sub_raises (PInt 100) last_progress of
                              Some e \<Rightarrow> except_RequestException e w1
                            | None \<Rightarrow>
                                (case bar_call w1 of
                                   (Some e, w2) \<Rightarrow> except_RequestException e w2
                                 | (None, w2) \<Rightarrow> (Inr True, w2)))
                         else if status = JStr (u ''in-progress'') then
                           (case py_get data (u ''progress'') (JInt 0) of
                              Inl e \<Rightarrow> except_RequestException e w1
                            | Inr progress \<Rightarrow>
                                (case to_num progress of
                                   None \<Rightarrow> except_RequestException TypeError w1
                                 | Some p \<Rightarrow>
                                     (case py_sub_raises p last_progress of
                                        Some e \<Rightarrow> except_RequestException e w1
                                      | None \<Rightarrow>
                                          (case bar_call w1 of
                                             (Some e, w2) \<Rightarrow> except_RequestException e w2
                                           | (None, w2) \<Rightarrow>
                                               poll_loop self url n p (sleep 1 w2)))))
                         else if status = JStr (u ''failed'') then (Inr False, w1)
                         else poll_loop self url n last_progress (sleep 1 w1)))))"

text \<open>
  \<^verbatim>\<open>_check_upload_status\<close>: the bar is constructed, the loop runs inside the
  \<^verbatim>\<open>with\<close> block, and however the block is left (a \<^verbatim>\<open>return\<close>, an exception or
  the end of the loop) the bar is closed. An exception of the close leaves the function;
  only an \<^verbatim>\<open>AttributeError\<close> of the close, when the block was left by an exception,
  is dropped in favour of that exception.
\<close>

definition check_upload_status :: "yandex_client \<Rightarrow> pystr \<Rightarrow> pystr \<Rightarrow> world \<Rightarrow> (py_error + bool) \<times> world" where
  "check_upload_status self operation_id filename w =
     (let url = YANDEX_BASE_URL @ u ''/operations/'' @ operation_id
      in case bar_call w of
           (Some e, w0) \<Rightarrow> (Inl e, w0)
         | (None, w0) \<Rightarrow>
             (case poll_loop self url 30 (PInt 0) w0 of
                (res, w1) \<Rightarrow>
                  (case bar_call w1 of
                     (None, w2) \<Rightarrow> (res, w2)
                   | (Some e', w2) \<Rightarrow>
                       (case res of
                          Inl e \<Rightarrow> (if e' = AttributeError then (Inl e, w2) else (Inl e', w2))
                        | Inr b \<Rightarrow> (Inl e', w2)))))"

definition upload_by_url :: "yandex_client \<Rightarrow> pystr \<Rightarrow> pystr \<Rightarrow> world \<Rightarrow> (py_error + bool) \<times> world" where
  "upload_by_url self file_url save_path w =
     (let url = YANDEX_BASE_URL @ u ''/resources/upload'';
          params = [(u ''url'', file_url), (u ''path'', save_path),
                    (u ''disable_redirects'', u ''true'')]
      in case http_call \<lparr>req_method = POST, req_url = url, req_headers = client_headers self,
                         req_params = params\<rparr> w of
           (Inl e, w1) \<Rightarrow> except_RequestException e w1
         | (Inr response, w1) \<Rightarrow>
             (case raise_for_status response of
                Inl e \<Rightarrow> except_RequestException e w1
              | Inr _ \<Rightarrow>
                  (case json_body response of
                     Inl e \<Rightarrow> except_RequestException e w1
                   | Inr body \<Rightarrow>
                       (case py_get body (u ''href'') (JStr []) of
                          Inl e \<Rightarrow> except_RequestException e w1
                        | Inr href \<Rightarrow>
                            (case py_split href (u ''operation_id='') of
                               Inl e \<Rightarrow> except_RequestException e w1
                             | Inr parts \<Rightarrow>
                                 (let operation_id = last parts
                                  in if operation_id \<noteq> [] then
                                       (case check_upload_status self operation_id save_path w1 of
                                          (Inl e, w2) \<Rightarrow> except_RequestException e w2
                                        | (Inr b, w2) \<Rightarrow> (Inr b, w2))
                                     else (Inr True, w1)))))))"

section \<open>\<^verbatim>\<open>CataasClient\<close>\<close>

text \<open>
  \<^verbatim>\<open>requests.utils.quote\<close> is \<^verbatim>\<open>urllib.parse.quote\<close>: the text is encoded in UTF-8
  (a surrogate cannot be encoded and raises \<^verbatim>\<open>UnicodeEncodeError\<close>), the bytes of
  letters, digits and \<^verbatim>\<open>_.-~/\<close> stay, every other byte becomes \<^verbatim>\<open>%XX\<close>. A number
  above \<open>0x10FFFF\<close> is no code point; no Python string holds one, and it is refused like
  a surrogate.
\<close>

definition utf8_encode1 :: "nat \<Rightarrow> nat list option" where
  "utf8_encode1 c =
     (if c < 0x80 then Some [c]
      else if c < 0x800 then Some [0xC0 + c div 0x40, 0x80 + c mod 0x40]
      else if 0xD800 \<le> c \<and> c < 0xE000 then None
      else if c < 0x10000 then
        Some [0xE0 + c div 0x1000, 0x80 + (c div 0x40) mod 0x40, 0x80 + c mod 0x40]
      else if c < 0x110000 then
        Some [0xF0 + c div 0x40000, 0x80 + (c div 0x1000) mod 0x40,
              0x80 + (c div 0x40) mod 0x40, 0x80 + c mod 0x40]
      else None)"

fun utf8_encode :: "pystr \<Rightarrow> nat list option" where
  "utf8_encode [] = Some []"
| "utf8_encode (c # cs) =
     (case utf8_encode1 c of
        None \<Rightarrow> None
      | Some bs \<Rightarrow> (case utf8_encode cs of None \<Rightarrow> None | Some rest \<Rightarrow> Some (bs @ rest)))"

definition quote_safe :: pystr where
  "quote_safe = u ''ABCDEFGHIJKLMNOPQRSTUVWXYZabcdefghijklmnopqrstuvwxyz0123456789_.-~/''"

definition hex_digit :: "nat \<Rightarrow> nat" where
  "hex_digit d = u ''0123456789ABCDEF'' ! d"

definition quote_byte :: "nat \<Rightarrow> pystr" where
  "quote_byte b =
     (if b \<in> set quote_safe then [b]
      else u ''%'' @ [hex_digit (b div 16), hex_digit (b mod 16)])"

definition quote :: "pystr \<Rightarrow> py_error + pystr" where
  "quote s =
     (case utf8_encode s of
        None \<Rightarrow> Inl UnicodeEncodeError
      | Some bs \<Rightarrow> Inr (concat (map quote_byte bs)))"

definition CATAAS_BASE_URL :: pystr where
  "CATAAS_BASE_URL = u ''https://cataas.com''"

text \<open>
  \<^verbatim>\<open>get_cat_image_url\<close> returns \<^verbatim>\<open>Optional[str]\<close>. The URL is built inside the
  \<^verbatim>\<open>try\<close>, whose handler takes a \<open>RequestException\<close> only.
\<close>

definition get_cat_image_url :: "pystr \<Rightarrow> world \<Rightarrow> (py_error + pystr option) \<times> world" where
  "get_cat_image_url text w =
     (case quote text of
        Inl e \<Rightarrow> (if is_RequestException e then (Inr None, w) else (Inl e, w))
      | Inr quoted \<Rightarrow>
          (let url = CATAAS_BASE_URL @ u ''/cat/says/'' @ quoted
           in case http_call \<lparr>req_method = HEAD, req_url = url, req_headers = [],
                              req_params = []\<rparr> w of
                (Inl e, w1) \<Rightarrow> (if is_RequestException e then (Inr None, w1) else (Inl e, w1))
              | (Inr response, w1) \<Rightarrow>
                  if status_code response = 200 then (Inr (Some url), w1)
                  else (Inr None, w1)))"

section \<open>The built-in \<^verbatim>\<open>int\<close> on a string\<close>

text \<open>
  \<^verbatim>\<open>int(s)\<close> in base 10: white space around the literal is dropped, one sign may come
  first, then decimal digits, with single underscores allowed between two digits.
  Anything else raises \<^verbatim>\<open>ValueError\<close>, and so does a literal of more than
  \<^verbatim>\<open>sys.int_max_str_digits\<close> digits (4300 unless reconfigured). The white space
  dropped is, within ASCII, the characters 9 to 13 and the space (the separators 28 to
  31 are not dropped, although \<^verbatim>\<open>str.isspace\<close> accepts them) and, beyond ASCII, the
  Unicode spaces. A digit is any decimal digit of Unicode (version 14.0, that of
  CPython 3.11): the digits of a script are ten consecutive characters, and
  \<open>digit_zeros\<close> lists the zero of each script.
\<close>

definition is_space :: "nat \<Rightarrow> bool" where
  "is_space c =
     (c \<in> set [9, 10, 11, 12, 13, 32, 133, 160, 5760, 8232, 8233, 8239, 8287, 12288]
      \<or> (8192 \<le> c \<and> c \<le> 8202))"

definition digit_zeros :: "nat list" where
  "digit_zeros =
     [48, 1632, 1776, 1984, 2406, 2534, 2662, 2790, 2918, 3046, 3174, 3302, 3430, 3558,
      3664, 3792, 3872, 4160, 4240, 6112, 6160, 6470, 6608, 6784, 6800, 6992, 7088, 7232,
      7248, 42528, 43216, 43264, 43472, 43504, 43600, 44016, 65296, 66720, 68912, 69734,
      69872, 69942, 70096, 70384, 70736, 70864, 71248, 71360, 71472, 71904, 72016, 72784,
      73040, 73120, 92768, 92864, 93008, 120782, 120792, 120802, 120812, 120822, 123200,
      123632, 125264, 130032]"

definition decimal_of :: "nat \<Rightarrow> nat option" where
  "decimal_of c =
     map_option (\<lambda>z. c - z) (find (\<lambda>z. z \<le> c \<and> c < z + 10) digit_zeros)"

definition is_digit :: "nat \<Rightarrow> bool" where
  "is_digit c = (decimal_of c \<noteq> None)"

definition py_strip :: "pystr \<Rightarrow> pystr" where
  "py_strip s = rev (dropWhile is_space (rev (dropWhile is_space s)))"

text \<open>The digits of a literal without its underscores; \<open>None\<close> when it is malformed.\<close>

fun digit_chars :: "pystr \<Rightarrow> pystr option" where
  "digit_chars [] = None"
| "digit_chars [c] = (if is_digit c then Some [c] else None)"
| "digit_chars (c # d # cs) =
     (if \<not> is_digit c then None
      else if d = underscore then map_option ((#) c) (digit_chars cs)
      else map_option ((#) c) (digit_chars (d # cs)))"

definition int_max_str_digits :: nat where
  "int_max_str_digits = 4300"

definition digits_value :: "pystr \<Rightarrow> int" where
  "digits_value ds =
     foldl (\<lambda>a c. 10 * a + (case decimal_of c of None \<Rightarrow> 0 | Some d \<Rightarrow> int d)) 0 ds"

definition py_int :: "pystr \<Rightarrow> py_error + int" where
  "py_int s =
     (let t = py_strip s;
          neg = (t \<noteq> [] \<and> hd t = of_char (CHR ''-''));
          signed = (t \<noteq> [] \<and> (hd t = of_char (CHR ''-'') \<or> hd t = of_char (CHR ''+'')));
          body = (if signed then tl t else t)
      in case digit_chars body of
           None \<Rightarrow> Inl ValueError
         | Some ds \<Rightarrow>
             if length ds > int_max_str_digits then Inl ValueError
             else Inr (if neg then - digits_value ds else digits_value ds))"

section \<open>\<^verbatim>\<open>BackupManager\<close>\<close>

record file_info =
  filename :: pystr
  size_bytes :: int
  text' :: pystr
  download_url :: pystr
  yandex_path :: pystr

record backup_manager =
  netology_group :: pystr
  uploaded_files :: "file_info list"

text \<open>
  \<^verbatim>\<open>_get_remote_file_size\<close>: the bare \<^verbatim>\<open>except\<close> turns every exception of the request
  and of \<^verbatim>\<open>int\<close> into the result 0.
\<close>

definition get_remote_file_size :: "pystr \<Rightarrow> world \<Rightarrow> int \<times> world" where
  "get_remote_file_size image_url w =
     (case http_call \<lparr>req_method = HEAD, req_url = image_url, req_headers = [],
                      req_params = []\<rparr> w of
        (Inl e, w1) \<Rightarrow> (0, w1)
      | (Inr response, w1) \<Rightarrow>
          (case map_of (headers response) (u ''content-length'') of
             None \<Rightarrow> (0, w1)
           | Some v \<Rightarrow> (case py_int v of Inl e \<Rightarrow> (0, w1) | Inr n \<Rightarrow> (n, w1))))"

text \<open>
  \<^verbatim>\<open>_save_to_json\<close>: nothing is written for an empty list; the handler takes an
  \<^verbatim>\<open>IOError\<close> of the write and logs it, any other exception goes on to the caller.
\<close>

definition record_json :: "backup_manager \<Rightarrow> pystr \<Rightarrow> file_info \<Rightarrow> json" where
  "record_json self time fi =
     JObj [(u ''filename'', JStr (filename fi)),
           (u ''size_bytes'', JInt (size_bytes fi)),
           (u ''text'', JStr (text' fi)),
           (u ''download_url'', JStr (download_url fi)),
           (u ''yandex_path'', JStr (yandex_path fi)),
           (u ''backup_time'', JStr time),
           (u ''group_name'', JStr (netology_group self))]"

definition save_to_json :: "backup_manager \<Rightarrow> world \<Rightarrow> (py_error + unit) \<times> world" where
  "save_to_json self w =
     (if uploaded_files self = [] then (Inr (), w)
      else
        (let data = JArr (map (record_json self (now w)) (uploaded_files self));
             json_filename = u ''backup_info_'' @ netology_group self @ u ''.json''
         in case write_json_file json_filename data w of
              (None, w1) \<Rightarrow> (Inr (), w1)
            | (Some e, w1) \<Rightarrow> (if is_IOError e then (Inr (), w1) else (Inl e, w1))))"

text \<open>
  The names bound at module level once the file has been executed, in the order of their
  binding, each with the class it is bound to, if it is one of the four classes of the
  file. A global name is looked up here (then among the built-ins, which have none of the
  names the program calls); a name that is not found raises \<^verbatim>\<open>NameError\<close>.
\<close>

datatype pyclass = FileInfo | YandexDiskClient | CataasClient | BackupManager

datatype pyglobal = ClassObj pyclass | OtherObj

type_synonym namespace = "(pystr \<times> pyglobal) list"

definition module_globals :: namespace where
  "module_globals =
     [(u ''requests'', OtherObj), (u ''json'', OtherObj), (u ''logging'', OtherObj),
      (u ''Optional'', OtherObj), (u ''Dict'', OtherObj), (u ''Any'', OtherObj),
      (u ''dataclass'', OtherObj), (u ''tqdm'', OtherObj), (u ''time'', OtherObj),
      (u ''FileInfo'', ClassObj FileInfo),
      (u ''YandexDiskClient'', ClassObj YandexDiskClient),
      (u ''CataasClient'', ClassObj CataasClient),
      (u ''BackupManager'', ClassObj BackupManager),
      (u ''main'', OtherObj)]"

text \<open>
  Calling a global name as \<^verbatim>\<open>run_backup\<close> calls it yields an instance of the class
  \<open>cls\<close> when the name is bound to that class. Bound to anything else, the call or the
  first use of its result raises (\<^verbatim>\<open>TypeError\<close> stands for that exception).
\<close>

definition call_global :: "namespace \<Rightarrow> pystr \<Rightarrow> pyclass \<Rightarrow> py_error + unit" where
  "call_global ns name cls =
     (case map_of ns name of
        None \<Rightarrow> Inl (NameError name)
      | Some g \<Rightarrow> (if g = ClassObj cls then Inr () else Inl TypeError))"

text \<open>
  The body of the \<^verbatim>\<open>try\<close> of \<^verbatim>\<open>run_backup\<close>, in a module namespace \<open>ns\<close>. It
  returns the value of the \<^verbatim>\<open>return\<close> it reaches or the exception it raises, with the
  manager (whose \<^verbatim>\<open>uploaded_files\<close> it appends to) and the world.
\<close>

definition run_backup_try :: "namespace \<Rightarrow> backup_manager \<Rightarrow> pystr \<Rightarrow> pystr \<Rightarrow> world
    \<Rightarrow> (py_error + bool) \<times> backup_manager \<times> world" where
  "run_backup_try ns self text yandex_token w =
     (case call_global ns (u ''CataasClient'') CataasClient of
        Inl e \<Rightarrow> (Inl e, self, w)
      | Inr _ \<Rightarrow>
     (case get_cat_image_url text w of
        (Inl e, w1) \<Rightarrow> (Inl e, self, w1)
      | (Inr image_url_opt, w1) \<Rightarrow>
     (case image_url_opt of
        None \<Rightarrow> (Inr False, self, w1)
      | Some image_url \<Rightarrow>
     if image_url = [] then (Inr False, self, w1)
     else
     (case call_global ns (u ''YandexDiskUploader'') YandexDiskClient of
        Inl e \<Rightarrow> (Inl e, self, w1)
      | Inr _ \<Rightarrow>
     (let yandex_client = YandexDiskClient_init yandex_token
      in case create_folder yandex_client (netology_group self) w1 of
        (Inl e, w2) \<Rightarrow> (Inl e, self, w2)
      | (Inr created, w2) \<Rightarrow>
     if \<not> created then (Inr False, self, w2)
     else
     (let safe_filename = sanitize_filename text @ u ''.jpg'';
          yandex_path = netology_group self @ u ''/'' @ safe_filename
      in case upload_by_url yandex_client image_url yandex_path w2 of
        (Inl e, w3) \<Rightarrow> (Inl e, self, w3)
      | (Inr uploaded, w3) \<Rightarrow>
     if \<not> uploaded then (Inr False, self, w3)
     else
     (case call_global ns (u ''FileInfo'') FileInfo of
        Inl e \<Rightarrow> (Inl e, self, w3)
      | Inr _ \<Rightarrow>
     (case get_remote_file_size image_url w3 of
        (size_b, w4) \<Rightarrow>
     (let file_info = \<lparr>filename = safe_filename, size_bytes = size_b, text' = text,
                        download_url = image_url, yandex_path = yandex_path\<rparr>;
          self' = self\<lparr>uploaded_files := uploaded_files self @ [file_info]\<rparr>
      in case save_to_json self' w4 of
        (Inl e, w5) \<Rightarrow> (Inl e, self', w5)
      | (Inr _, w5) \<Rightarrow> (Inr True, self', w5))))))))))"

text \<open>
  \<^verbatim>\<open>except Exception\<close> of \<^verbatim>\<open>run_backup\<close>: every exception is logged and the method
  returns \<^verbatim>\<open>False\<close>.
\<close>

definition run_backup_in :: "namespace \<Rightarrow> backup_manager \<Rightarrow> pystr \<Rightarrow> pystr \<Rightarrow> world
    \<Rightarrow> bool \<times> backup_manager \<times> world" where
  "run_backup_in ns self text yandex_token w =
     (case run_backup_try ns self text yandex_token w of
        (Inl e, self', w') \<Rightarrow> (False, self', w')
      | (Inr b, self', w') \<Rightarrow> (b, self', w'))"

text \<open>\<^verbatim>\<open>BackupManager.run_backup\<close>, in the namespace of the module as it is written.\<close>

definition run_backup :: "backup_manager \<Rightarrow> pystr \<Rightarrow> pystr \<Rightarrow> world
    \<Rightarrow> bool \<times> backup_manager \<times> world" where
  "run_backup self text yandex_token w = run_backup_in module_globals self text yandex_token w"

text \<open>
  The statements of the \<^verbatim>\<open>try\<close> that follow the upload, lines 286 to 303 of the
  source, as \<open>run_backup_try\<close> has them: the record is built (the size probe is an
  argument of \<^verbatim>\<open>FileInfo\<close>), appended, and \<^verbatim>\<open>_save_to_json\<close> is called before
  \<^verbatim>\<open>return True\<close>.
\<close>

definition run_backup_after_upload :: "namespace \<Rightarrow> backup_manager \<Rightarrow> pystr \<Rightarrow> pystr
    \<Rightarrow> pystr \<Rightarrow> pystr \<Rightarrow> world \<Rightarrow> (py_error + bool) \<times> backup_manager \<times> world" where
  "run_backup_after_upload ns self text image_url safe_filename path w =
     (case call_global ns (u ''FileInfo'') FileInfo of
        Inl e \<Rightarrow> (Inl e, self, w)
      | Inr _ \<Rightarrow>
     (case get_remote_file_size image_url w of
        (size_b, w4) \<Rightarrow>
     (let file_info = \<lparr>filename = safe_filename, size_bytes = size_b, text' = text,
                        download_url = image_url, yandex_path = path\<rparr>;
          self' = self\<lparr>uploaded_files := uploaded_files self @ [file_info]\<rparr>
      in case save_to_json self' w4 of
        (Inl e, w5) \<Rightarrow> (Inl e, self', w5)
      | (Inr _, w5) \<Rightarrow> (Inr True, self', w5))))"

section \<open>Reading the trace and the answers of the services\<close>

text \<open>The actions a claim speaks of, as tests on the events of the trace.\<close>

fun is_write :: "event \<Rightarrow> bool" where
  "is_write (WriteFile name data) = True"
| "is_write (Http req) = False"
| "is_write (Sleep n) = False"

fun is_put :: "event \<Rightarrow> bool" where
  "is_put (Http req) = (req_method req = PUT)"
| "is_put (Sleep n) = False"
| "is_put (WriteFile name data) = False"

definition put_count :: "event list \<Rightarrow> nat" where
  "put_count evs = length (filter is_put evs)"

text \<open>A poll is a \<^verbatim>\<open>GET\<close> of the operation-status endpoint.\<close>

fun is_poll :: "event \<Rightarrow> bool" where
  "is_poll (Http req) =
     (req_method req = GET \<and> prefix (YANDEX_BASE_URL @ u ''/operations/'') (req_url req))"
| "is_poll (Sleep n) = False"
| "is_poll (WriteFile name data) = False"

text \<open>
  The requests the program sends, and the events of one round of the polling loop that
  goes on to the next round.
\<close>

definition image_request :: "pystr \<Rightarrow> request" where
  "image_request image_url =
     \<lparr>req_method = HEAD, req_url = image_url, req_headers = [], req_params = []\<rparr>"

definition folder_request :: "http_method \<Rightarrow> yandex_client \<Rightarrow> pystr \<Rightarrow> request" where
  "folder_request m self folder_name =
     \<lparr>req_method = m, req_url = YANDEX_BASE_URL @ u ''/resources'',
      req_headers = client_headers self, req_params = [(u ''path'', folder_name)]\<rparr>"

definition upload_request :: "yandex_client \<Rightarrow> pystr \<Rightarrow> pystr \<Rightarrow> request" where
  "upload_request self file_url save_path =
     \<lparr>req_method = POST, req_url = YANDEX_BASE_URL @ u ''/resources/upload'',
      req_headers = client_headers self,
      req_params = [(u ''url'', file_url), (u ''path'', save_path),
                    (u ''disable_redirects'', u ''true'')]\<rparr>"

definition poll_request :: "yandex_client \<Rightarrow> pystr \<Rightarrow> request" where
  "poll_request self operation_id =
     \<lparr>req_method = GET, req_url = YANDEX_BASE_URL @ u ''/operations/'' @ operation_id,
      req_headers = client_headers self, req_params = []\<rparr>"

definition poll_round :: "yandex_client \<Rightarrow> pystr \<Rightarrow> event list" where
  "poll_round self operation_id = [Http (poll_request self operation_id), Sleep 1]"

text \<open>
  What an answer to a poll reports. The remote reports a status when the call returns a
  response that is not an HTTP error and whose body is a JSON object; the status is the
  value under \<^verbatim>\<open>status\<close> (\<^verbatim>\<open>None\<close> when there is none). An answer reports
  \<^verbatim>\<open>in-progress\<close> whatever its progress is. It is pending when the status is neither
  \<^verbatim>\<open>success\<close> nor \<^verbatim>\<open>failed\<close> and, for \<^verbatim>\<open>in-progress\<close>, the progress is absent or
  a number the round can subtract: a \<^verbatim>\<open>float\<close>, or an \<^verbatim>\<open>int\<close> that fits one.
\<close>

fun num_ok :: "pynum \<Rightarrow> bool" where
  "num_ok (PInt i) = int_fits_float i"
| "num_ok (PFloat f) = True"

definition reported_status :: "(pystr \<times> json) list \<Rightarrow> json" where
  "reported_status kvs = (case map_of kvs (u ''status'') of None \<Rightarrow> JNull | Some v \<Rightarrow> v)"

definition progress_is_number :: "(pystr \<times> json) list \<Rightarrow> bool" where
  "progress_is_number kvs =
     (case map_of kvs (u ''progress'') of
        None \<Rightarrow> True
      | Some v \<Rightarrow> (case to_num v of None \<Rightarrow> False | Some p \<Rightarrow> num_ok p))"

definition poll_reports_in_progress :: "http_outcome \<Rightarrow> bool" where
  "poll_reports_in_progress out =
     (case out of
        Inl e \<Rightarrow> False
      | Inr r \<Rightarrow>
          raise_for_status r = Inr () \<and>
          (case json_body r of
             Inr (JObj kvs) \<Rightarrow> reported_status kvs = JStr (u ''in-progress'')
           | _ \<Rightarrow> False))"

text \<open>The progress bar is quiet when none of its calls to come raises.\<close>

definition bar_quiet :: "world \<Rightarrow> bool" where
  "bar_quiet w = list_all (\<lambda>r. r = None) (bar_script w)"

definition poll_pending :: "http_outcome \<Rightarrow> bool" where
  "poll_pending out =
     (case out of
        Inl e \<Rightarrow> False
      | Inr r \<Rightarrow>
          raise_for_status r = Inr () \<and>
          (case json_body r of
             Inr (JObj kvs) \<Rightarrow>
               reported_status kvs \<noteq> JStr (u ''success'') \<and>
               reported_status kvs \<noteq> JStr (u ''failed'') \<and>
               (if reported_status kvs = JStr (u ''in-progress'')
                then progress_is_number kvs else True)
           | _ \<Rightarrow> False))"


definition poll_reports_failed :: "http_outcome \<Rightarrow> bool" where
  "poll_reports_failed out =
     (case out of
        Inl e \<Rightarrow> False
      | Inr r \<Rightarrow>
          raise_for_status r = Inr () \<and>
          (case json_body r of
             Inr (JObj kvs) \<Rightarrow> reported_status kvs = JStr (u ''failed'')
           | _ \<Rightarrow> False))"

section \<open>Example answers and worlds\<close>

definition json_response :: "int \<Rightarrow> (pystr \<times> json) list \<Rightarrow> http_outcome" where
  "json_response code kvs = Inr \<lparr>status_code = code, headers = [], json_body = Inr (JObj kvs)\<rparr>"

definition headers_response :: "int \<Rightarrow> (pystr \<times> pystr) list \<Rightarrow> http_outcome" where
  "headers_response code hs = Inr \<lparr>status_code = code, headers = hs, json_body = Inl ValueError\<rparr>"

definition world_of :: "http_outcome list \<Rightarrow> py_error option list \<Rightarrow> world" where
  "world_of answers writes =
     \<lparr>http_script = answers, write_script = writes, bar_script = [],
      now = u ''2024-01-01 00:00:00'', trace = []\<rparr>"

definition example_manager :: backup_manager where
  "example_manager = \<lparr>netology_group = u ''SPD-142'', uploaded_files = []\<rparr>"

definition example_client :: yandex_client where
  "example_client = YandexDiskClient_init (u ''secret'')"

definition pending_answer :: http_outcome where
  "pending_answer =
     json_response 200 [(u ''status'', JStr (u ''in-progress'')), (u ''progress'', JInt 50)]"

definition success_answer :: http_outcome where
  "success_answer =
     json_response 200 [(u ''status'', JStr (u ''success'')), (u ''progress'', JStr (u ''n/a''))]"

definition failed_answer :: http_outcome where
  "failed_answer =
     json_response 200 [(u ''status'', JStr (u ''failed'')), (u ''message'', JStr (u ''no''))]"

text \<open>
  Answers that report \<^verbatim>\<open>in-progress\<close> with a progress of \<^verbatim>\<open>null\<close> and of
  \<^verbatim>\<open>Infinity\<close>, and two worlds for the polling: 30 answers of the first kind; and an
  answer of the second kind followed by \<^verbatim>\<open>success\<close>, where the bar, its position no
  longer a number after the two updates, raises \<^verbatim>\<open>ValueError\<close> when it is closed.
\<close>

definition null_progress_answer :: http_outcome where
  "null_progress_answer =
     json_response 200 [(u ''status'', JStr (u ''in-progress'')), (u ''progress'', JNull)]"


definition null_progress_world :: world where
  "null_progress_world = world_of (replicate 30 null_progress_answer) []"



text \<open>
  Two worlds for \<^verbatim>\<open>create_folder\<close>: the folder is reported twice, and the folder is
  reported once before the connection fails.
\<close>

definition folder_exists_world :: world where
  "folder_exists_world = world_of [json_response 200 [], json_response 200 []] []"

definition folder_then_failure_world :: world where
  "folder_then_failure_world = world_of [json_response 200 [], Inl RequestException] []"

text \<open>A remote that refuses the token: every request is answered with 401.\<close>

definition unauthorized_world :: world where
  "unauthorized_world = world_of (replicate 4 (json_response 401 [])) []"

text \<open>
  Two answers to the upload request: one whose reference has no \<^verbatim>\<open>operation_id=\<close>
  marker (the form \<^verbatim>\<open>.../operations/<id>\<close>), followed by a poll that reports a failure,
  and one whose reference ends with the marker.
\<close>

definition plain_href :: pystr where
  "plain_href = u ''https://cloud-api.yandex.net/v1/disk/operations/abc''"

definition plain_href_world :: world where
  "plain_href_world = world_of [json_response 202 [(u ''href'', JStr plain_href)], failed_answer] []"

definition empty_id_world :: world where
  "empty_id_world =
     world_of [json_response 202 [(u ''href'', JStr (u ''https://x.test/y?operation_id=''))],
               failed_answer] []"

section \<open>Properties of the file name\<close>

lemma foldl_replace_map:
  "foldl (\<lambda>t char. py_replace1 char n t) s cs =
     map (\<lambda>c. if c \<in> set cs then n else c) s" if "n \<notin> set cs"
  using that
proof (induction cs arbitrary: s)
  case Nil
  then show ?case by simp
next
  case (Cons a cs)
  then have n: "n \<notin> set cs" "n \<noteq> a" by auto
  have "foldl (\<lambda>t char. py_replace1 char n t) s (a # cs) =
          map (\<lambda>c. if c \<in> set cs then n else c) (py_replace1 a n s)"
    by (simp add: Cons.IH [OF n(1)])
  also have "\<dots> = map (\<lambda>c. if c \<in> set (a # cs) then n else c) s"
    using n by (simp add: py_replace1_def)
  finally show ?case .
qed

lemma invalid_chars_codes:
  "invalid_chars = [60, 62, 58, 34, 47, 92, 124, 63, 42, 32]"
  by (simp add: invalid_chars_def u_def)

lemma underscore_code: "underscore = 95"
  by (simp add: underscore_def)

lemma underscore_valid: "underscore \<notin> set invalid_chars"
  by (simp add: invalid_chars_codes underscore_code)

lemma sanitize_filename_map:
  "sanitize_filename text =
     take 100 (map (\<lambda>c. if c \<in> set invalid_chars then underscore else c) text)"
  unfolding sanitize_filename_def
  by (simp add: foldl_replace_map [OF underscore_valid])

lemma sanitize_filename_clean: "set (sanitize_filename text) \<inter> set invalid_chars = {}"
proof -
  have "set (map (\<lambda>c. if c \<in> set invalid_chars then underscore else c) text)
          \<inter> set invalid_chars = {}"
    using underscore_valid by auto
  moreover have "set (sanitize_filename text)
      \<subseteq> set (map (\<lambda>c. if c \<in> set invalid_chars then underscore else c) text)"
    unfolding sanitize_filename_map by (rule set_take_subset)
  ultimately show ?thesis by blast
qed

lemma jpg_clean: "set (u ''.jpg'') \<inter> set invalid_chars = {}"
  by (simp add: invalid_chars_codes u_def)

text \<open>
  C6. For every caption that contains a character of \<^verbatim>\<open><>:"/\\|?*\<close> or a space, the
  file name derived in \<^verbatim>\<open>run_backup\<close>, \<^verbatim>\<open>_sanitize_filename(text) + ".jpg"\<close>,
  contains none of these characters and ends in \<^verbatim>\<open>.jpg\<close>.
\<close>

theorem derived_filename_clean:
  assumes "set text \<inter> set invalid_chars \<noteq> {}"
  shows "set (sanitize_filename text @ u ''.jpg'') \<inter> set invalid_chars = {}
       \<and> suffix (u ''.jpg'') (sanitize_filename text @ u ''.jpg'')"
proof
  show "set (sanitize_filename text @ u ''.jpg'') \<inter> set invalid_chars = {}"
    using sanitize_filename_clean [of "text"] jpg_clean by auto
  show "suffix (u ''.jpg'') (sanitize_filename text @ u ''.jpg'')"
    by (rule suffixI) simp
qed

theorem derived_filename_clean_witness:
  "set (u ''my cat?'') \<inter> set invalid_chars \<noteq> {}
   \<and> sanitize_filename (u ''my cat?'') @ u ''.jpg'' = u ''my_cat_.jpg''
   \<and> set (u ''my_cat_.jpg'') \<inter> set invalid_chars = {}
   \<and> suffix (u ''.jpg'') (u ''my_cat_.jpg'')"
proof -
  have h: "set (u ''my cat?'') \<inter> set invalid_chars \<noteq> {}"
    by (simp add: invalid_chars_codes u_def)
  have e: "sanitize_filename (u ''my cat?'') @ u ''.jpg'' = u ''my_cat_.jpg''"
    by (simp add: sanitize_filename_map invalid_chars_codes underscore_code u_def)
  show ?thesis
    using h e derived_filename_clean [OF h] by simp
qed

text \<open>
  C7. For every caption of length 250 the name before the extension has length exactly
  100: the replacements keep the length, and the slice keeps the first 100 characters.
\<close>

theorem sanitize_filename_length_250:
  assumes "length text = 250"
  shows "length (sanitize_filename text) = 100"
  using assms by (simp add: sanitize_filename_map)

theorem sanitize_filename_length_250_witness:
  "length (replicate 250 (of_char (CHR ''a'') :: nat)) = 250
   \<and> length (sanitize_filename (replicate 250 (of_char (CHR ''a'')))) = 100"
proof -
  have h: "length (replicate 250 (of_char (CHR ''a'') :: nat)) = 250" by simp
  show ?thesis
    using h sanitize_filename_length_250 [OF h] by simp
qed

section \<open>Calls of the services\<close>

lemma http_call_Cons:
  "http_script w = out # rest \<Longrightarrow>
     http_call req w = (out, w\<lparr>http_script := rest, trace := trace w @ [Http req]\<rparr>)"
  by (simp add: http_call_def)

lemma http_call_frame:
  assumes "http_call req w = (out, w')"
  shows "filter is_write (trace w') = filter is_write (trace w)"
    and "write_script w' = write_script w"
  using assms by (auto simp: http_call_def split: list.splits)

section \<open>The run never succeeds\<close>

lemma uploader_unbound:
  "call_global module_globals (u ''YandexDiskUploader'') cls =
     Inl (NameError (u ''YandexDiskUploader''))"
  by (simp add: call_global_def module_globals_def u_def)

lemma cataas_bound: "call_global module_globals (u ''CataasClient'') CataasClient = Inr ()"
  by (simp add: call_global_def module_globals_def u_def)

lemma get_cat_image_url_cases:
  assumes "get_cat_image_url s w = (res, w')"
  shows "filter is_write (trace w') = filter is_write (trace w)"
    and "write_script w' = write_script w"
    and "res = Inr (Some image_url) \<Longrightarrow> image_url \<noteq> []"
  using assms
  by (auto simp: get_cat_image_url_def Let_def CATAAS_BASE_URL_def u_def
      dest: http_call_frame split: sum.splits prod.splits if_splits)

lemma get_cat_image_url_200:
  assumes "quote s = Inr q" and "http_script w = Inr r # rest" and "status_code r = 200"
  shows "get_cat_image_url s w =
           (Inr (Some (CATAAS_BASE_URL @ u ''/cat/says/'' @ q)),
            w\<lparr>http_script := rest,
              trace := trace w @ [Http (image_request (CATAAS_BASE_URL @ u ''/cat/says/'' @ q))]\<rparr>)"
  using assms by (simp add: get_cat_image_url_def Let_def http_call_Cons image_request_def)

lemma get_cat_image_url_not_200:
  assumes "http_script w = Inr r # rest" and "status_code r \<noteq> 200"
  shows "fst (get_cat_image_url s w) \<noteq> Inr (Some image_url)"
  using assms
  by (auto simp: get_cat_image_url_def Let_def http_call_Cons split: sum.splits)

lemma run_backup_fails: "fst (run_backup self text yandex_token w) = False"
  unfolding run_backup_def run_backup_in_def run_backup_try_def
  by (simp add: uploader_unbound split: sum.splits prod.splits option.splits)

lemma run_backup_try_NameError:
  assumes "get_cat_image_url text w = (Inr (Some image_url), w1)"
  shows "run_backup_try module_globals self text yandex_token w =
           (Inl (NameError (u ''YandexDiskUploader'')), self, w1)"
  using assms get_cat_image_url_cases(3) [OF assms]
  unfolding run_backup_try_def
  by (simp add: uploader_unbound cataas_bound)

lemma quote_cat: "quote (u ''cat'') = Inr (u ''cat'')"
  by code_simp

text \<open>
  C1. Whatever the caption, the token and the answers of the services, \<^verbatim>\<open>run_backup\<close>
  returns \<^verbatim>\<open>False\<close>: once the image URL is resolved, the \<^verbatim>\<open>try\<close> reaches the call
  of \<^verbatim>\<open>YandexDiskUploader\<close>, a name the module does not bind (the class is
  \<^verbatim>\<open>YandexDiskClient\<close>), and raises \<^verbatim>\<open>NameError\<close>, which the handler of
  \<^verbatim>\<open>run_backup\<close> turns into \<^verbatim>\<open>False\<close>.
\<close>

theorem run_backup_never_succeeds:
  "fst (run_backup self text yandex_token w) = False \<and>
   (\<forall>image_url w1.
      get_cat_image_url text w = (Inr (Some image_url), w1) \<longrightarrow>
      run_backup_try module_globals self text yandex_token w =
        (Inl (NameError (u ''YandexDiskUploader'')), self, w1))"
  using run_backup_fails run_backup_try_NameError by blast

theorem run_backup_never_succeeds_witness:
  "fst (get_cat_image_url (u ''cat'') (world_of [headers_response 200 []] []))
     = Inr (Some (u ''https://cataas.com/cat/says/cat''))
   \<and> run_backup_try module_globals example_manager (u ''cat'') (u ''secret'')
        (world_of [headers_response 200 []] [])
     = (Inl (NameError (u ''YandexDiskUploader'')), example_manager,
        snd (get_cat_image_url (u ''cat'') (world_of [headers_response 200 []] [])))
   \<and> fst (run_backup example_manager (u ''cat'') (u ''secret'')
        (world_of [headers_response 200 []] [])) = False"
proof -
  let ?w = "world_of [headers_response 200 []] []"
  have "http_script ?w = Inr \<lparr>status_code = 200, headers = [], json_body = Inl ValueError\<rparr> # []"
    by (simp add: world_of_def headers_response_def)
  from get_cat_image_url_200 [OF quote_cat this]
  have h: "fst (get_cat_image_url (u ''cat'') ?w) = Inr (Some (u ''https://cataas.com/cat/says/cat''))"
    by (simp add: CATAAS_BASE_URL_def u_def)
  then have e: "get_cat_image_url (u ''cat'') ?w
     = (Inr (Some (u ''https://cataas.com/cat/says/cat'')), snd (get_cat_image_url (u ''cat'') ?w))"
    by (metis prod.collapse)
  show ?thesis
    using h e run_backup_never_succeeds [of example_manager "u ''cat''" "u ''secret''" ?w]
    by blast
qed

section \<open>A run whose image probe is refused\<close>

lemma run_backup_in_probe_not_200:
  assumes "http_script w = Inr r # rest" and "status_code r \<noteq> 200"
  shows "fst (run_backup_in ns self text yandex_token w) = False"
    and "fst (snd (run_backup_in ns self text yandex_token w)) = self"
    and "filter is_write (trace (snd (snd (run_backup_in ns self text yandex_token w))))
           = filter is_write (trace w)"
    and "write_script (snd (snd (run_backup_in ns self text yandex_token w))) = write_script w"
proof -
  obtain res w1 where g: "get_cat_image_url text w = (res, w1)"
    by (cases "get_cat_image_url text w")
  have n: "res \<noteq> Inr (Some image_url)" for image_url
    using get_cat_image_url_not_200 [OF assms, of "text" image_url] g by simp
  note f = get_cat_image_url_cases(1,2) [OF g]
  show "fst (run_backup_in ns self text yandex_token w) = False"
    and "fst (snd (run_backup_in ns self text yandex_token w)) = self"
    and "filter is_write (trace (snd (snd (run_backup_in ns self text yandex_token w))))
           = filter is_write (trace w)"
    and "write_script (snd (snd (run_backup_in ns self text yandex_token w))) = write_script w"
    using n f unfolding run_backup_in_def run_backup_try_def
    by (auto simp: g split: sum.splits option.splits)
qed

text \<open>
  C9. When the probe of the image source is answered with a status other than 200,
  \<^verbatim>\<open>run_backup\<close> returns \<^verbatim>\<open>False\<close>, leaves \<^verbatim>\<open>uploaded_files\<close> as it was, and writes
  no file: the trace gains no write and the file system is not asked. The lemma above
  shows the same in every module namespace, so the stage itself stops the run.
\<close>

theorem run_backup_probe_not_200:
  assumes "http_script w = Inr r # rest" and "status_code r \<noteq> 200"
  shows "fst (run_backup self text yandex_token w) = False
       \<and> fst (snd (run_backup self text yandex_token w)) = self
       \<and> filter is_write (trace (snd (snd (run_backup self text yandex_token w))))
           = filter is_write (trace w)
       \<and> write_script (snd (snd (run_backup self text yandex_token w))) = write_script w"
  unfolding run_backup_def
  using run_backup_in_probe_not_200 [OF assms] by simp

theorem run_backup_probe_not_200_witness:
  "fst (run_backup example_manager (u ''cat'') (u ''secret'')
          (world_of [headers_response 404 []] [None])) = False
   \<and> uploaded_files (fst (snd (run_backup example_manager (u ''cat'') (u ''secret'')
          (world_of [headers_response 404 []] [None])))) = []
   \<and> filter is_write (trace (snd (snd (run_backup example_manager (u ''cat'') (u ''secret'')
          (world_of [headers_response 404 []] [None]))))) = []
   \<and> write_script (snd (snd (run_backup example_manager (u ''cat'') (u ''secret'')
          (world_of [headers_response 404 []] [None])))) = [None]"
proof -
  let ?r = "\<lparr>status_code = 404, headers = [], json_body = Inl ValueError\<rparr>"
  have a: "http_script (world_of [headers_response 404 []] [None]) = Inr ?r # []"
    by (simp add: world_of_def headers_response_def)
  have b: "status_code ?r \<noteq> 200" by simp
  show ?thesis
    using run_backup_probe_not_200 [OF a b, of example_manager "u ''cat''" "u ''secret''"]
    by (simp add: world_of_def example_manager_def)
qed

section \<open>Ensuring the folder twice\<close>

lemma create_folder_exists:
  assumes "http_script w = Inr r # rest" and "status_code r = 200"
  shows "create_folder self p w =
           (Inr True, w\<lparr>http_script := rest,
                         trace := trace w @ [Http (folder_request GET self p)]\<rparr>)"
  using assms by (simp add: create_folder_def Let_def http_call_Cons folder_request_def)

lemma create_folder_success_iff:
  "fst (create_folder self p w) = Inr True \<longleftrightarrow>
     (\<exists>r rest. http_script w = Inr r # rest \<and>
        (status_code r = 200 \<or>
         (\<exists>r' rest'. rest = Inr r' # rest' \<and> (status_code r' = 201 \<or> status_code r' = 409))))"
  by (auto simp add: create_folder_def Let_def http_call_def except_RequestException_def
      split: list.splits sum.splits)

lemma create_folder_put_le:
  "put_count (trace (snd (create_folder self p w))) \<le> Suc (put_count (trace w))"
  by (auto simp add: create_folder_def Let_def http_call_def except_RequestException_def
      put_count_def split: list.splits sum.splits)

text \<open>
  C5, as the code has it. When the existence probe of the first call is answered with
  200, that call returns \<^verbatim>\<open>True\<close> and sends no \<^verbatim>\<open>PUT\<close>, and the two calls together
  send at most one \<^verbatim>\<open>PUT\<close>. The second call returns \<^verbatim>\<open>True\<close> exactly when the remote
  answers it so: its probe with 200, or its \<^verbatim>\<open>PUT\<close> with 201 or 409.
\<close>

theorem create_folder_twice:
  assumes "http_script w = Inr r # rest" and "status_code r = 200"
  shows "fst (create_folder self p w) = Inr True
       \<and> put_count (trace (snd (create_folder self p w))) = put_count (trace w)
       \<and> put_count (trace (snd (create_folder self p (snd (create_folder self p w)))))
            \<le> put_count (trace w) + 1
       \<and> (fst (create_folder self p (snd (create_folder self p w))) = Inr True \<longleftrightarrow>
            (\<exists>r2 rest2. rest = Inr r2 # rest2 \<and>
               (status_code r2 = 200 \<or>
                (\<exists>r3 rest3. rest2 = Inr r3 # rest3 \<and>
                   (status_code r3 = 201 \<or> status_code r3 = 409)))))"
proof -
  let ?w1 = "w\<lparr>http_script := rest, trace := trace w @ [Http (folder_request GET self p)]\<rparr>"
  have 1: "create_folder self p w = (Inr True, ?w1)"
    by (rule create_folder_exists [OF assms])
  have 2: "put_count (trace ?w1) = put_count (trace w)"
    by (simp add: put_count_def folder_request_def)
  have 3: "put_count (trace (snd (create_folder self p ?w1))) \<le> put_count (trace w) + 1"
    using create_folder_put_le [of self p ?w1] 2 by simp
  have 4: "http_script ?w1 = rest" by simp
  show ?thesis
    unfolding 1 fst_conv snd_conv create_folder_success_iff [of self p ?w1] 4
    using 2 3 by simp
qed

theorem create_folder_twice_witness:
  "fst (create_folder example_client (u ''SPD-142'') folder_exists_world) = Inr True
   \<and> fst (create_folder example_client (u ''SPD-142'')
            (snd (create_folder example_client (u ''SPD-142'') folder_exists_world))) = Inr True
   \<and> put_count (trace (snd (create_folder example_client (u ''SPD-142'')
            (snd (create_folder example_client (u ''SPD-142'') folder_exists_world))))) \<le> 1"
proof -
  let ?r = "\<lparr>status_code = 200, headers = [], json_body = Inr (JObj [])\<rparr>"
  have a: "http_script folder_exists_world = Inr ?r # [Inr ?r]"
    by (simp add: folder_exists_world_def world_of_def json_response_def)
  have b: "status_code ?r = 200" by simp
  have c: "put_count (trace folder_exists_world) = 0"
    by (simp add: folder_exists_world_def world_of_def put_count_def)
  have d: "\<exists>r2 rest2. [Inr ?r] = Inr r2 # rest2 \<and>
               (status_code r2 = 200 \<or>
                (\<exists>r3 rest3. rest2 = Inr r3 # rest3 \<and>
                   (status_code r3 = 201 \<or> status_code r3 = 409)))"
    by simp
  show ?thesis
    using create_folder_twice [OF a b, of example_client "u ''SPD-142''"] c d by simp
qed

text \<open>
  Two calls do not always both succeed. When the folder is reported at the first call and
  the connection then fails, the first call returns \<^verbatim>\<open>True\<close> and the second
  \<^verbatim>\<open>False\<close>. When the remote answers every request with 401, both calls return
  \<^verbatim>\<open>False\<close>.
\<close>

theorem create_folder_twice_counterexample:
  "fst (create_folder example_client (u ''SPD-142'') folder_then_failure_world) = Inr True
   \<and> fst (create_folder example_client (u ''SPD-142'')
            (snd (create_folder example_client (u ''SPD-142'') folder_then_failure_world)))
       = Inr False
   \<and> fst (create_folder example_client (u ''SPD-142'') unauthorized_world) = Inr False
   \<and> fst (create_folder example_client (u ''SPD-142'')
            (snd (create_folder example_client (u ''SPD-142'') unauthorized_world)))
       = Inr False"
proof -
  let ?r = "\<lparr>status_code = 200, headers = [], json_body = Inr (JObj [])\<rparr>"
  have a: "http_script folder_then_failure_world = Inr ?r # [Inl RequestException]"
    by (simp add: folder_then_failure_world_def world_of_def json_response_def)
  have b: "status_code ?r = 200" by simp
  have 1: "fst (create_folder example_client (u ''SPD-142'') folder_then_failure_world) = Inr True
   \<and> fst (create_folder example_client (u ''SPD-142'')
            (snd (create_folder example_client (u ''SPD-142'') folder_then_failure_world)))
       = Inr False"
    unfolding create_folder_exists [OF a b]
    by (simp add: create_folder_def Let_def http_call_def except_RequestException_def
        is_RequestException_def)
  have 2: "fst (create_folder example_client (u ''SPD-142'') unauthorized_world) = Inr False
   \<and> fst (create_folder example_client (u ''SPD-142'')
            (snd (create_folder example_client (u ''SPD-142'') unauthorized_world)))
       = Inr False"
    by (simp add: unauthorized_world_def world_of_def json_response_def create_folder_def
        Let_def http_call_def numeral_eq_Suc)
  from 1 2 show ?thesis by simp
qed

section \<open>Splitting the reference at the marker\<close>

lemma split_from_nonempty: "split_from sep acc s \<noteq> []"
  by (induction sep acc s rule: split_from.induct) auto

lemma suffix_own_append:
  assumes bf: "\<forall>v. prefix v sep \<and> suffix v sep \<longrightarrow> v = [] \<or> v = sep"
    and t: "t \<noteq> []"
  shows "suffix sep (sep @ t) \<longleftrightarrow> suffix sep t"
proof
  assume "suffix sep (sep @ t)"
  then consider "suffix sep t" | v where "sep = v @ t" "suffix v sep"
    by (auto simp: suffix_append)
  then show "suffix sep t"
  proof cases
    case 1
    then show ?thesis .
  next
    case 2
    then have "prefix v sep" by (simp add: prefixI)
    with 2 bf have "v = [] \<or> v = sep" by blast
    with 2 t show ?thesis by auto
  qed
next
  assume "suffix sep t"
  then show "suffix sep (sep @ t)" by (simp add: suffix_appendI)
qed

text \<open>
  For a separator that is no proper prefix and suffix of itself at once, the last piece
  is empty exactly when the string is empty or ends with the separator.
\<close>

lemma last_split_from:
  assumes "\<forall>v. prefix v sep \<and> suffix v sep \<longrightarrow> v = [] \<or> v = sep"
    and "sep \<noteq> []"
  shows "last (split_from sep acc s) = [] \<longleftrightarrow> (if s = [] then acc = [] else suffix sep s)"
  using assms
proof (induction sep acc s rule: split_from.induct)
  case (1 sep acc)
  then show ?case by simp
next
  case (2 sep acc c cs)
  note bf = "2.prems"(1) and ne = "2.prems"(2)
  show ?case
  proof (cases "prefix sep (c # cs)")
    case True
    then obtain t where t: "c # cs = sep @ t" by (auto simp: prefix_def)
    have d: "drop (length sep) (c # cs) = t" by (simp add: t)
    from "2.IH"(1) [OF conjI [OF ne True] bf ne]
    have ih: "last (split_from sep [] t) = [] \<longleftrightarrow> (t = [] \<or> suffix sep t)"
      unfolding d by simp
    have "split_from sep acc (c # cs) = rev acc # split_from sep [] t"
      using True ne d by simp
    then have "last (split_from sep acc (c # cs)) = last (split_from sep [] t)"
      by (simp add: split_from_nonempty)
    moreover have "(t = [] \<or> suffix sep t) \<longleftrightarrow> suffix sep (sep @ t)"
    proof (cases "t = []")
      case True
      then show ?thesis by simp
    next
      case False
      then show ?thesis
        using suffix_own_append [OF bf False] by simp
    qed
    ultimately have "last (split_from sep acc (c # cs)) = [] \<longleftrightarrow> suffix sep (sep @ t)"
      using ih by simp
    then show ?thesis unfolding t [symmetric] by simp
  next
    case False
    have "\<not> (sep \<noteq> [] \<and> prefix sep (c # cs))" using False by simp
    from "2.IH"(2) [OF this bf ne]
    have ih: "last (split_from sep (c # acc) cs) = [] \<longleftrightarrow> (cs \<noteq> [] \<and> suffix sep cs)"
      by simp
    have neq: "sep \<noteq> c # cs" using False by auto
    have "suffix sep (c # cs) \<longleftrightarrow> (cs \<noteq> [] \<and> suffix sep cs)"
      using neq ne by (auto simp: suffix_Cons)
    moreover have "split_from sep acc (c # cs) = split_from sep (c # acc) cs"
      using False by simp
    ultimately show ?thesis using ih by simp
  qed
qed

text \<open>A string in which the separator does not occur is the only piece.\<close>

lemma split_from_no_occurrence:
  assumes "\<forall>t. suffix t s \<longrightarrow> \<not> prefix sep t"
  shows "split_from sep acc s = [rev acc @ s]"
  using assms
proof (induction sep acc s rule: split_from.induct)
  case (1 sep acc)
  then show ?case by simp
next
  case (2 sep acc c cs)
  have n: "\<not> prefix sep (c # cs)" using "2.prems" by blast
  have "\<forall>t. suffix t cs \<longrightarrow> \<not> prefix sep t"
    using "2.prems" by (simp add: suffix_ConsI)
  with "2.IH"(2) n have "split_from sep (c # acc) cs = [rev (c # acc) @ cs]" by simp
  with n show ?case by simp
qed

lemma marker_nonempty: "u ''operation_id='' \<noteq> []"
  by (simp add: u_def)

lemma marker_border_free:
  "\<forall>v. prefix v (u ''operation_id='') \<and> suffix v (u ''operation_id='')
        \<longrightarrow> v = [] \<or> v = u ''operation_id=''"
proof (intro allI impI)
  fix v :: pystr
  assume a: "prefix v (u ''operation_id='') \<and> suffix v (u ''operation_id='')"
  then have "v \<in> set (prefixes (u ''operation_id=''))"
    by (simp add: in_set_prefixes)
  then consider "v = []" | "v = u ''operation_id=''" | "v \<noteq> []" "61 \<notin> set v"
    by (auto simp: u_def)
  then show "v = [] \<or> v = u ''operation_id=''"
  proof cases
    case 3
    from a have "suffix v (u ''operation_id='')" by simp
    then obtain zs where "u ''operation_id='' = zs @ v" by (auto simp: suffix_def)
    then have "last (u ''operation_id='') = last v" using 3(1) by simp
    moreover have "last (u ''operation_id='') = 61" by (simp add: u_def)
    ultimately have "61 \<in> set v" using 3(1) last_in_set by metis
    with 3(2) show ?thesis by simp
  qed simp_all
qed

lemma operation_id_empty_iff:
  "last (split_from (u ''operation_id='') [] s) = [] \<longleftrightarrow>
     s = [] \<or> suffix (u ''operation_id='') s"
  using last_split_from [OF marker_border_free marker_nonempty, of "[]" s] by auto

section \<open>Starting the upload\<close>

lemma upload_by_url_identifier:
  assumes "http_script w = Inr r # rest"
    and "raise_for_status r = Inr ()"
    and "json_body r = Inr (JObj kvs)"
    and "map_of kvs (u ''href'') = Some (JStr s)"
    and "last (split_from (u ''operation_id='') [] s) = operation_id"
    and "operation_id \<noteq> []"
  shows "upload_by_url self file_url save_path w =
           (case check_upload_status self operation_id save_path
                   (w\<lparr>http_script := rest,
                      trace := trace w @ [Http (upload_request self file_url save_path)]\<rparr>) of
              (Inl e, w2) \<Rightarrow> except_RequestException e w2
            | (Inr b, w2) \<Rightarrow> (Inr b, w2))"
  using assms
  by (simp add: upload_by_url_def Let_def http_call_Cons upload_request_def py_split_def
      py_get_def marker_nonempty)

text \<open>
  C2, as the code has it. When the upload request is answered without an HTTP error by a
  JSON object whose \<^verbatim>\<open>href\<close> is absent, is the empty string, or ends with the marker
  \<^verbatim>\<open>operation_id=\<close>, so that the identifier taken from it is empty, \<^verbatim>\<open>upload_by_url\<close>
  returns \<^verbatim>\<open>True\<close> and the only request sent is the upload request: no poll.
\<close>

theorem upload_by_url_empty_identifier:
  assumes "http_script w = Inr r # rest"
    and "raise_for_status r = Inr ()"
    and "json_body r = Inr (JObj kvs)"
    and "map_of kvs (u ''href'') = None \<or>
         (\<exists>s. map_of kvs (u ''href'') = Some (JStr s) \<and>
              (s = [] \<or> suffix (u ''operation_id='') s))"
  shows "upload_by_url self file_url save_path w =
           (Inr True, w\<lparr>http_script := rest,
                         trace := trace w @ [Http (upload_request self file_url save_path)]\<rparr>)"
proof -
  from assms(4) obtain s where s: "py_get (JObj kvs) (u ''href'') (JStr []) = Inr (JStr s)"
    and e: "s = [] \<or> suffix (u ''operation_id='') s"
    by (auto simp: py_get_def)
  from e have "last (split_from (u ''operation_id='') [] s) = []"
    by (simp only: operation_id_empty_iff)
  then show ?thesis
    using assms(1-3) s
    by (simp add: upload_by_url_def Let_def http_call_Cons upload_request_def py_split_def
        marker_nonempty)
qed

theorem upload_by_url_empty_identifier_witness:
  "upload_by_url example_client (u ''https://cataas.com/cat/says/cat'') (u ''SPD-142/cat.jpg'')
      empty_id_world =
     (Inr True,
      empty_id_world
        \<lparr>http_script := [failed_answer],
          trace := [Http (upload_request example_client (u ''https://cataas.com/cat/says/cat'')
                            (u ''SPD-142/cat.jpg''))]\<rparr>)"
proof -
  let ?kvs = "[(u ''href'', JStr (u ''https://x.test/y?operation_id=''))]"
  let ?r = "\<lparr>status_code = 202, headers = [], json_body = Inr (JObj ?kvs)\<rparr>"
  have a: "http_script empty_id_world = Inr ?r # [failed_answer]"
    by (simp add: empty_id_world_def world_of_def json_response_def)
  have b: "raise_for_status ?r = Inr ()" by (simp add: raise_for_status_def)
  have c: "json_body ?r = Inr (JObj ?kvs)" by simp
  have "suffix (u ''operation_id='') (u ''https://x.test/y?operation_id='')"
    by (rule suffixI [of _ "u ''https://x.test/y?''"]) (simp add: u_def)
  then have d: "map_of ?kvs (u ''href'') = None \<or>
         (\<exists>s. map_of ?kvs (u ''href'') = Some (JStr s) \<and>
              (s = [] \<or> suffix (u ''operation_id='') s))"
    by simp
  show ?thesis
    using upload_by_url_empty_identifier [OF a b c d, of example_client
        "u ''https://cataas.com/cat/says/cat''" "u ''SPD-142/cat.jpg''"]
    by (simp add: empty_id_world_def world_of_def)
qed

section \<open>Polling the operation\<close>

lemma py_get_status: "py_get (JObj kvs) (u ''status'') JNull = Inr (reported_status kvs)"
  by (simp add: py_get_def reported_status_def)


lemma poll_reports_failedE:
  assumes "poll_reports_failed out"
  obtains r kvs where "out = Inr r" and "raise_for_status r = Inr ()"
    and "json_body r = Inr (JObj kvs)" and "reported_status kvs = JStr (u ''failed'')"
  using assms unfolding poll_reports_failed_def
  by (auto split: sum.splits json.splits)

lemma poll_reports_in_progressE:
  assumes "poll_reports_in_progress out"
  obtains r kvs where "out = Inr r" and "raise_for_status r = Inr ()"
    and "json_body r = Inr (JObj kvs)" and "reported_status kvs = JStr (u ''in-progress'')"
  using assms unfolding poll_reports_in_progress_def
  by (auto split: sum.splits json.splits)

lemma poll_pendingE:
  assumes "poll_pending out"
  obtains r kvs where "out = Inr r" and "raise_for_status r = Inr ()"
    and "json_body r = Inr (JObj kvs)"
    and "reported_status kvs \<noteq> JStr (u ''success'')"
    and "reported_status kvs \<noteq> JStr (u ''failed'')"
    and "reported_status kvs = JStr (u ''in-progress'') \<Longrightarrow> progress_is_number kvs"
  using assms unfolding poll_pending_def
  by (auto split: sum.splits json.splits if_splits)

lemma int_fits_float_small: "\<bar>i\<bar> \<le> 100 \<Longrightarrow> int_fits_float i"
proof -
  assume a: "\<bar>i\<bar> \<le> 100"
  have "(2::int) ^ 1024 = 2 ^ 54 * 2 ^ 970" by (simp flip: power_add)
  moreover have "(2::int) ^ 54 \<ge> 102" by simp
  moreover have "(2::int) ^ 970 \<ge> 1" by simp
  ultimately have "(2::int) ^ 1024 - 2 ^ 970 \<ge> 101 * 2 ^ 970"
    by (simp add: algebra_simps)
  moreover have "(101::int) * 2 ^ 970 \<ge> 101"
    using \<open>(2::int) ^ 970 \<ge> 1\<close> by simp
  ultimately show ?thesis
    using a unfolding int_fits_float_def by linarith
qed

lemma progress_is_numberE:
  assumes "progress_is_number kvs"
  obtains v p where "py_get (JObj kvs) (u ''progress'') (JInt 0) = Inr v"
    and "to_num v = Some p" and "num_ok p"
proof (cases "map_of kvs (u ''progress'')")
  case None
  then have "py_get (JObj kvs) (u ''progress'') (JInt 0) = Inr (JInt 0)"
    by (simp add: py_get_def)
  moreover have "to_num (JInt 0) = Some (PInt 0)" by (simp add: to_num_def)
  moreover have "num_ok (PInt 0)" by (simp add: int_fits_float_small)
  ultimately show ?thesis by (rule that)
next
  case (Some v)
  then have 1: "py_get (JObj kvs) (u ''progress'') (JInt 0) = Inr v"
    by (simp add: py_get_def)
  from assms Some obtain p where "to_num v = Some p" "num_ok p"
    unfolding progress_is_number_def by (auto split: option.splits)
  with 1 show ?thesis by (rule that)
qed

lemma py_sub_ok: "num_ok p \<Longrightarrow> num_ok q \<Longrightarrow> py_sub_raises p q = None"
  by (cases p; cases q) simp_all



lemma bar_call_quiet:
  assumes "bar_quiet w"
  shows "bar_call w = (None, w\<lparr>bar_script := tl (bar_script w)\<rparr>)"
proof (cases "bar_script w")
  case Nil
  then have "w\<lparr>bar_script := tl (bar_script w)\<rparr> = w" by simp
  with Nil show ?thesis by (simp add: bar_call_def)
next
  case (Cons r rs)
  with assms show ?thesis by (simp add: bar_call_def bar_quiet_def)
qed

lemma bar_quiet_drop:
  assumes "bar_quiet w" and "bar_script w' = drop k (bar_script w)"
  shows "bar_quiet w'"
  using assms unfolding bar_quiet_def list_all_iff
  by (auto dest: in_set_dropD)

lemma bar_quiet_tl:
  assumes "bar_quiet w" and "bar_script w' = tl (bar_script w)"
  shows "bar_quiet w'"
  by (rule bar_quiet_drop [OF assms(1), of _ 1]) (simp add: assms(2) drop_Suc)


lemma poll_loop_failed_step:
  assumes "http_script w = out # rest" and "poll_reports_failed out"
  shows "poll_loop self url (Suc n) last_p w =
           (Inr False,
            w\<lparr>http_script := rest,
              trace := trace w @ [Http \<lparr>req_method = GET, req_url = url,
                                        req_headers = client_headers self, req_params = []\<rparr>]\<rparr>)"
proof -
  from assms(2) obtain r kvs where "out = Inr r" "raise_for_status r = Inr ()"
    "json_body r = Inr (JObj kvs)" "reported_status kvs = JStr (u ''failed'')"
    by (rule poll_reports_failedE)
  moreover have "u ''failed'' \<noteq> u ''success''" and "u ''failed'' \<noteq> u ''in-progress''"
    by (simp_all add: u_def)
  ultimately show ?thesis
    using assms(1) by (simp add: http_call_Cons py_get_status)
qed

lemma in_progress_not_success: "u ''in-progress'' \<noteq> u ''success''"
  by (simp add: u_def)

lemma poll_loop_in_progress_step:
  assumes "http_script w = out # rest" and "poll_reports_in_progress out"
    and "\<And>r kvs. out = Inr r \<Longrightarrow> json_body r = Inr (JObj kvs) \<Longrightarrow>
           py_get (JObj kvs) (u ''progress'') (JInt 0) = Inr v"
    and "to_num v = Some p" and "py_sub_raises p last_p = None"
    and "bar_call (w\<lparr>http_script := rest,
            trace := trace w @ [Http \<lparr>req_method = GET, req_url = url,
                                      req_headers = client_headers self, req_params = []\<rparr>]\<rparr>)
         = (None, w2)"
  shows "poll_loop self url (Suc n) last_p w = poll_loop self url n p (sleep 1 w2)"
proof -
  from assms(2) obtain r kvs where r: "out = Inr r" "raise_for_status r = Inr ()"
    "json_body r = Inr (JObj kvs)" "reported_status kvs = JStr (u ''in-progress'')"
    by (rule poll_reports_in_progressE)
  from assms(3) [OF r(1) r(3)] have "py_get (JObj kvs) (u ''progress'') (JInt 0) = Inr v" .
  then show ?thesis
    using assms(1,4,5,6) r
    by (simp add: http_call_Cons py_get_status in_progress_not_success)
qed

text \<open>A progress that is not a number: the subtraction raises, and the round lets it go.\<close>

lemma poll_loop_not_number_step:
  assumes "http_script w = out # rest" and "poll_reports_in_progress out"
    and "\<And>r kvs. out = Inr r \<Longrightarrow> json_body r = Inr (JObj kvs) \<Longrightarrow>
           py_get (JObj kvs) (u ''progress'') (JInt 0) = Inr v"
    and "to_num v = None"
  shows "poll_loop self url (Suc n) last_p w =
           (Inl TypeError,
            w\<lparr>http_script := rest,
              trace := trace w @ [Http \<lparr>req_method = GET, req_url = url,
                                        req_headers = client_headers self, req_params = []\<rparr>]\<rparr>)"
proof -
  from assms(2) obtain r kvs where r: "out = Inr r" "raise_for_status r = Inr ()"
    "json_body r = Inr (JObj kvs)" "reported_status kvs = JStr (u ''in-progress'')"
    by (rule poll_reports_in_progressE)
  from assms(3) [OF r(1) r(3)] have "py_get (JObj kvs) (u ''progress'') (JInt 0) = Inr v" .
  then show ?thesis
    using assms(1,4) r
    by (simp add: http_call_Cons py_get_status in_progress_not_success
        except_RequestException_def is_RequestException_def)
qed

lemma poll_loop_pending_step:
  assumes "http_script w = out # rest" and "poll_pending out"
    and "bar_quiet w" and "num_ok last_p"
  shows "\<exists>p k. num_ok p \<and> poll_loop self url (Suc n) last_p w =
           poll_loop self url n p
             (w\<lparr>http_script := rest, bar_script := drop k (bar_script w),
                trace := trace w @ [Http \<lparr>req_method = GET, req_url = url,
                                          req_headers = client_headers self, req_params = []\<rparr>,
                                    Sleep 1]\<rparr>)"
proof -
  let ?req = "\<lparr>req_method = GET, req_url = url, req_headers = client_headers self,
                req_params = []\<rparr>"
  let ?w1 = "w\<lparr>http_script := rest, trace := trace w @ [Http ?req]\<rparr>"
  from assms(2) obtain r kvs where r: "out = Inr r" "raise_for_status r = Inr ()"
    "json_body r = Inr (JObj kvs)"
    and ns: "reported_status kvs \<noteq> JStr (u ''success'')"
    and nf: "reported_status kvs \<noteq> JStr (u ''failed'')"
    and pr: "reported_status kvs = JStr (u ''in-progress'') \<Longrightarrow> progress_is_number kvs"
    by (rule poll_pendingE) blast
  show ?thesis
  proof (cases "reported_status kvs = JStr (u ''in-progress'')")
    case True
    from pr [OF True] obtain v p where v: "py_get (JObj kvs) (u ''progress'') (JInt 0) = Inr v"
      and p: "to_num v = Some p" and ok: "num_ok p"
      by (rule progress_is_numberE)
    have q: "bar_quiet ?w1" using assms(3) by (simp add: bar_quiet_def)
    have b: "bar_call ?w1 = (None, ?w1\<lparr>bar_script := tl (bar_script ?w1)\<rparr>)"
      by (rule bar_call_quiet [OF q])
    have ip: "poll_reports_in_progress out"
      using r True by (simp add: poll_reports_in_progress_def)
    have g: "\<And>r' kvs'. out = Inr r' \<Longrightarrow> json_body r' = Inr (JObj kvs') \<Longrightarrow>
           py_get (JObj kvs') (u ''progress'') (JInt 0) = Inr v"
      using r v by simp
    have "poll_loop self url (Suc n) last_p w =
            poll_loop self url n p (sleep 1 (?w1\<lparr>bar_script := tl (bar_script ?w1)\<rparr>))"
      by (rule poll_loop_in_progress_step
          [OF assms(1) ip g p py_sub_ok [OF ok assms(4)] b])
    then have "poll_loop self url (Suc n) last_p w =
           poll_loop self url n p
             (w\<lparr>http_script := rest, bar_script := drop 1 (bar_script w),
                trace := trace w @ [Http ?req, Sleep 1]\<rparr>)"
      by (simp add: sleep_def drop_Suc)
    with ok show ?thesis by blast
  next
    case False
    then have "poll_loop self url (Suc n) last_p w =
           poll_loop self url n last_p
             (w\<lparr>http_script := rest, bar_script := drop 0 (bar_script w),
                trace := trace w @ [Http ?req, Sleep 1]\<rparr>)"
      using assms(1) r ns nf by (simp add: http_call_Cons py_get_status sleep_def)
    with assms(4) show ?thesis by blast
  qed
qed

text \<open>A run of pending answers takes as many rounds, each a poll and a sleep.\<close>

lemma poll_loop_pending_run:
  assumes "http_script w = outs @ rest" and "\<forall>out\<in>set outs. poll_pending out"
    and "length outs \<le> n" and "bar_quiet w" and "num_ok last_p"
  shows "\<exists>p k. poll_loop self url n last_p w =
           poll_loop self url (n - length outs) p
             (w\<lparr>http_script := rest, bar_script := drop k (bar_script w),
                trace := trace w @ concat (replicate (length outs)
                  [Http \<lparr>req_method = GET, req_url = url,
                          req_headers = client_headers self, req_params = []\<rparr>, Sleep 1])\<rparr>)"
  using assms
proof (induction outs arbitrary: w n last_p)
  case Nil
  then have "rest = http_script w" by simp
  then show ?case by (intro exI [of _ last_p] exI [of _ 0]) simp
next
  case (Cons out outs)
  then obtain m where m: "n = Suc m" by (cases n) auto
  let ?ev = "[Http \<lparr>req_method = GET, req_url = url,
                      req_headers = client_headers self, req_params = []\<rparr>, Sleep 1]"
  from Cons.prems have s: "http_script w = out # (outs @ rest)" and p: "poll_pending out"
    by simp_all
  from poll_loop_pending_step [OF s p Cons.prems(4,5)] obtain p1 k1 where ok1: "num_ok p1"
    and 1: "poll_loop self url (Suc m) last_p w = poll_loop self url m p1
             (w\<lparr>http_script := outs @ rest, bar_script := drop k1 (bar_script w),
                trace := trace w @ ?ev\<rparr>)"
    by blast
  let ?w1 = "w\<lparr>http_script := outs @ rest, bar_script := drop k1 (bar_script w),
               trace := trace w @ ?ev\<rparr>"
  have a: "http_script ?w1 = outs @ rest" by simp
  have b: "\<forall>out\<in>set outs. poll_pending out" using Cons.prems(2) by simp
  have c: "length outs \<le> m" using Cons.prems(3) m by simp
  have q: "bar_quiet ?w1" by (rule bar_quiet_drop [OF Cons.prems(4), of _ k1]) simp
  from Cons.IH [OF a b c q ok1] obtain p2 k2 where
    2: "poll_loop self url m p1 ?w1 =
           poll_loop self url (m - length outs) p2
             (?w1\<lparr>http_script := rest, bar_script := drop k2 (bar_script ?w1),
                trace := trace ?w1 @ concat (replicate (length outs) ?ev)\<rparr>)"
    by blast
  have "poll_loop self url n last_p w =
           poll_loop self url (n - length (out # outs)) p2
             (w\<lparr>http_script := rest, bar_script := drop (k1 + k2) (bar_script w),
                trace := trace w @ concat (replicate (length (out # outs)) ?ev)\<rparr>)"
    unfolding m 1 2 by (simp add: add.commute)
  then show ?case by blast
qed

text \<open>The whole function, when the bar is quiet.\<close>

lemma check_upload_status_quiet:
  assumes "bar_quiet w"
    and "poll_loop self (YANDEX_BASE_URL @ u ''/operations/'' @ operation_id) 30 (PInt 0)
           (w\<lparr>bar_script := tl (bar_script w)\<rparr>) = (res, w1)"
    and "bar_quiet w1"
  shows "check_upload_status self operation_id fname w =
           (res, w1\<lparr>bar_script := tl (bar_script w1)\<rparr>)"
  unfolding check_upload_status_def Let_def
  by (simp add: bar_call_quiet [OF assms(1)] assms(2) bar_call_quiet [OF assms(3)])

lemma check_upload_status_pending_30:
  assumes "http_script w = outs @ rest" and "length outs = 30"
    and "\<forall>out\<in>set outs. poll_pending out" and "bar_quiet w"
  shows "fst (check_upload_status self operation_id fname w) = Inr False
       \<and> http_script (snd (check_upload_status self operation_id fname w)) = rest
       \<and> trace (snd (check_upload_status self operation_id fname w)) =
           trace w @ concat (replicate 30 (poll_round self operation_id))"
proof -
  let ?url = "YANDEX_BASE_URL @ u ''/operations/'' @ operation_id"
  let ?w0 = "w\<lparr>bar_script := tl (bar_script w)\<rparr>"
  have q0: "bar_quiet ?w0" by (rule bar_quiet_tl [OF assms(4)]) simp
  have s0: "http_script ?w0 = outs @ rest" using assms(1) by simp
  have l: "length outs \<le> 30" using assms(2) by simp
  have ok: "num_ok (PInt 0)" by (simp add: int_fits_float_small)
  from poll_loop_pending_run [OF s0 assms(3) l q0 ok, of self ?url] obtain p k where
    1: "poll_loop self ?url 30 (PInt 0) ?w0 =
          poll_loop self ?url (30 - length outs) p
            (?w0\<lparr>http_script := rest, bar_script := drop k (bar_script ?w0),
               trace := trace ?w0 @ concat (replicate (length outs)
                 [Http \<lparr>req_method = GET, req_url = ?url,
                         req_headers = client_headers self, req_params = []\<rparr>, Sleep 1])\<rparr>)"
    by blast
  let ?w1 = "?w0\<lparr>http_script := rest, bar_script := drop k (bar_script ?w0),
               trace := trace ?w0 @ concat (replicate (length outs)
                 [Http \<lparr>req_method = GET, req_url = ?url,
                         req_headers = client_headers self, req_params = []\<rparr>, Sleep 1])\<rparr>"
  have 2: "poll_loop self ?url 30 (PInt 0) ?w0 = (Inr False, ?w1)"
    unfolding 1 using assms(2) by simp
  have q1: "bar_quiet ?w1" by (rule bar_quiet_drop [OF q0, of _ k]) simp
  show ?thesis
    unfolding check_upload_status_quiet [OF assms(4) 2 q1]
    using assms(2) by (simp add: poll_round_def poll_request_def)
qed


lemma check_upload_status_first_failed:
  assumes "http_script w = ans # rest" and "poll_reports_failed ans" and "bar_quiet w"
  shows "fst (check_upload_status self operation_id fname w) = Inr False
       \<and> trace (snd (check_upload_status self operation_id fname w)) =
           trace w @ [Http (poll_request self operation_id)]"
proof -
  let ?url = "YANDEX_BASE_URL @ u ''/operations/'' @ operation_id"
  let ?req = "\<lparr>req_method = GET, req_url = ?url, req_headers = client_headers self,
                req_params = []\<rparr>"
  let ?w0 = "w\<lparr>bar_script := tl (bar_script w)\<rparr>"
  let ?w1 = "?w0\<lparr>http_script := rest, trace := trace ?w0 @ [Http ?req]\<rparr>"
  have n: "(30::nat) = Suc 29" by simp
  have s0: "http_script ?w0 = ans # rest" using assms(1) by simp
  have 1: "poll_loop self ?url 30 (PInt 0) ?w0 = (Inr False, ?w1)"
    unfolding n by (rule poll_loop_failed_step [OF s0 assms(2)])
  have q1: "bar_quiet ?w1"
    by (rule bar_quiet_tl [OF assms(3)]) simp
  show ?thesis
    unfolding check_upload_status_quiet [OF assms(3) 1 q1]
    by (simp add: poll_request_def)
qed

lemma pending_answer_pending: "poll_pending pending_answer"
  by (simp add: poll_pending_def pending_answer_def json_response_def raise_for_status_def
      reported_status_def progress_is_number_def to_num_def int_fits_float_small u_def)


lemma failed_answer_failed: "poll_reports_failed failed_answer"
  by (simp add: poll_reports_failed_def failed_answer_def json_response_def
      raise_for_status_def reported_status_def)

lemma world_of_quiet: "bar_quiet (world_of answers writes)"
  by (simp add: bar_quiet_def world_of_def)

text \<open>
  C3, as the code has it. When the next 30 answers to the polls are all pending (each
  reports a status that is not recognised, or \<^verbatim>\<open>in-progress\<close> with a progress that is
  absent or a number the round can subtract, none \<^verbatim>\<open>success\<close> or \<^verbatim>\<open>failed\<close>) and
  the progress bar raises nothing, \<^verbatim>\<open>_check_upload_status\<close> returns \<^verbatim>\<open>False\<close> after
  exactly 30 rounds: it has sent 30 polls, slept 30 times, taken these 30 answers and
  nothing more.
\<close>

theorem check_upload_status_timeout:
  assumes "http_script w = outs @ rest" and "length outs = 30"
    and "\<forall>out\<in>set outs. poll_pending out" and "bar_quiet w"
  shows "fst (check_upload_status self operation_id fname w) = Inr False
       \<and> http_script (snd (check_upload_status self operation_id fname w)) = rest
       \<and> trace (snd (check_upload_status self operation_id fname w)) =
           trace w @ concat (replicate 30 (poll_round self operation_id))"
  using assms by (rule check_upload_status_pending_30)

theorem check_upload_status_timeout_witness:
  "fst (check_upload_status example_client (u ''7'') (u ''SPD-142/cat.jpg'')
          (world_of (replicate 30 pending_answer @ [success_answer]) [])) = Inr False
   \<and> http_script (snd (check_upload_status example_client (u ''7'') (u ''SPD-142/cat.jpg'')
          (world_of (replicate 30 pending_answer @ [success_answer]) []))) = [success_answer]
   \<and> trace (snd (check_upload_status example_client (u ''7'') (u ''SPD-142/cat.jpg'')
          (world_of (replicate 30 pending_answer @ [success_answer]) []))) =
       concat (replicate 30 (poll_round example_client (u ''7'')))"
proof -
  have a: "http_script (world_of (replicate 30 pending_answer @ [success_answer]) [])
             = replicate 30 pending_answer @ [success_answer]"
    by (simp add: world_of_def)
  have b: "length (replicate 30 pending_answer) = 30" by simp
  have c: "\<forall>out\<in>set (replicate 30 pending_answer). poll_pending out"
    by (simp add: pending_answer_pending)
  have t: "trace (world_of (replicate 30 pending_answer @ [success_answer]) []) = []"
    by (simp add: world_of_def)
  show ?thesis
    using check_upload_status_timeout [OF a b c world_of_quiet,
        of example_client "u ''7''" "u ''SPD-142/cat.jpg''"]
    unfolding t by simp
qed

text \<open>
  All 30 answers report \<^verbatim>\<open>in-progress\<close> with a progress of \<^verbatim>\<open>null\<close>: the first round
  raises \<^verbatim>\<open>TypeError\<close> out of the function after a single poll, the bar being quiet.
\<close>

theorem check_upload_status_timeout_counterexample:
  "list_all poll_reports_in_progress (http_script null_progress_world)
   \<and> length (http_script null_progress_world) = 30
   \<and> fst (check_upload_status example_client (u ''7'') (u ''SPD-142/cat.jpg'')
            null_progress_world) = Inl TypeError
   \<and> trace (snd (check_upload_status example_client (u ''7'') (u ''SPD-142/cat.jpg'')
            null_progress_world)) = [Http (poll_request example_client (u ''7''))]"
proof -
  let ?url = "YANDEX_BASE_URL @ u ''/operations/'' @ u ''7''"
  let ?req = "\<lparr>req_method = GET, req_url = ?url, req_headers = client_headers example_client,
                req_params = []\<rparr>"
  have ip: "poll_reports_in_progress null_progress_answer"
    by (simp add: poll_reports_in_progress_def null_progress_answer_def json_response_def
        raise_for_status_def reported_status_def)
  have h: "list_all poll_reports_in_progress (http_script null_progress_world)
         \<and> length (http_script null_progress_world) = 30"
    by (simp add: null_progress_world_def world_of_def list_all_iff ip)
  have q: "bar_quiet null_progress_world"
    unfolding null_progress_world_def by (rule world_of_quiet)
  let ?w0 = "null_progress_world\<lparr>bar_script := tl (bar_script null_progress_world)\<rparr>"
  let ?w1 = "?w0\<lparr>http_script := replicate 29 null_progress_answer,
               trace := trace ?w0 @ [Http ?req]\<rparr>"
  have n: "(30::nat) = Suc 29" by simp
  have "replicate 30 null_progress_answer = null_progress_answer # replicate 29 null_progress_answer"
    unfolding n by (simp only: replicate_Suc)
  then have s0: "http_script ?w0 = null_progress_answer # replicate 29 null_progress_answer"
    by (simp add: null_progress_world_def world_of_def)
  have g: "\<And>r kvs. null_progress_answer = Inr r \<Longrightarrow> json_body r = Inr (JObj kvs) \<Longrightarrow>
           py_get (JObj kvs) (u ''progress'') (JInt 0) = Inr JNull"
    by (auto simp: null_progress_answer_def json_response_def py_get_def u_def)
  have t: "to_num JNull = None" by (simp add: to_num_def)
  have 1: "poll_loop example_client ?url 30 (PInt 0) ?w0 = (Inl TypeError, ?w1)"
    unfolding n by (rule poll_loop_not_number_step [OF s0 ip g t])
  have q1: "bar_quiet ?w1" by (simp add: bar_quiet_def null_progress_world_def world_of_def)
  show ?thesis
    using h unfolding check_upload_status_quiet [OF q 1 q1]
    by (simp add: poll_request_def null_progress_world_def world_of_def)
qed




text \<open>
  The reference of the answer has no marker and is not empty: the whole reference is taken
  as the identifier and polled, and the upload returns what the poll decides, here
  \<^verbatim>\<open>False\<close>.
\<close>

theorem upload_by_url_polls_counterexample:
  "fst (upload_by_url example_client (u ''https://cataas.com/cat/says/cat'')
          (u ''SPD-142/cat.jpg'') plain_href_world) = Inr False
   \<and> filter is_poll (trace (snd (upload_by_url example_client
          (u ''https://cataas.com/cat/says/cat'') (u ''SPD-142/cat.jpg'') plain_href_world)))
       = [Http (poll_request example_client plain_href)]"
proof -
  let ?kvs = "[(u ''href'', JStr plain_href)]"
  let ?r = "\<lparr>status_code = 202, headers = [], json_body = Inr (JObj ?kvs)\<rparr>"
  have a: "http_script plain_href_world = Inr ?r # [failed_answer]"
    by (simp add: plain_href_world_def world_of_def json_response_def)
  have b: "raise_for_status ?r = Inr ()" by (simp add: raise_for_status_def)
  have c: "json_body ?r = Inr (JObj ?kvs)" by simp
  have d: "map_of ?kvs (u ''href'') = Some (JStr plain_href)" by simp
  have e: "last (split_from (u ''operation_id='') [] plain_href) = plain_href"
    by code_simp
  have f: "plain_href \<noteq> []" by (simp add: plain_href_def u_def)
  let ?w1 = "plain_href_world\<lparr>http_script := [failed_answer],
        trace := trace plain_href_world @ [Http (upload_request example_client
          (u ''https://cataas.com/cat/says/cat'') (u ''SPD-142/cat.jpg''))]\<rparr>"
  let ?c = "check_upload_status example_client plain_href (u ''SPD-142/cat.jpg'') ?w1"
  have g: "http_script ?w1 = failed_answer # []" by simp
  have q: "bar_quiet ?w1" by (simp add: bar_quiet_def plain_href_world_def world_of_def)
  from check_upload_status_first_failed [OF g failed_answer_failed q]
  have r: "fst ?c = Inr False"
    and t: "trace (snd ?c) = trace ?w1 @ [Http (poll_request example_client plain_href)]"
    by simp_all
  from r have p: "?c = (Inr False, snd ?c)" by (metis prod.collapse)
  have "upload_by_url example_client (u ''https://cataas.com/cat/says/cat'')
          (u ''SPD-142/cat.jpg'') plain_href_world = (Inr False, snd ?c)"
    unfolding upload_by_url_identifier [OF a b c d e f] by (subst p) simp
  then show ?thesis
    using t
    by (simp add: plain_href_world_def world_of_def upload_request_def poll_request_def)
qed

section \<open>The size of the remote file\<close>

lemma foldl_digits_nonneg:
  "0 \<le> a \<Longrightarrow>
   0 \<le> foldl (\<lambda>a c. 10 * a + (case decimal_of c of None \<Rightarrow> 0 | Some d \<Rightarrow> int d)) a ds"
  by (induction ds arbitrary: a) (simp_all split: option.splits)

lemma digits_value_nonneg: "0 \<le> digits_value ds"
  unfolding digits_value_def by (rule foldl_digits_nonneg) simp

text \<open>\<^verbatim>\<open>int\<close> gives a negative number only for a literal with a minus sign.\<close>

lemma py_int_nonneg:
  assumes "py_int v = Inr n" and "\<not> prefix (u ''-'') (py_strip v)"
  shows "0 \<le> n"
proof -
  have "\<not> (py_strip v \<noteq> [] \<and> hd (py_strip v) = of_char (CHR ''-''))"
    using assms(2) by (cases "py_strip v") (auto simp: u_def)
  with assms(1) show ?thesis
    by (auto simp: py_int_def Let_def digits_value_nonneg split: option.splits if_splits)
qed

lemma decimal_of_ascii: "48 \<le> c \<Longrightarrow> c \<le> 57 \<Longrightarrow> decimal_of c = Some (c - 48)"
  by (simp add: decimal_of_def digit_zeros_def)

lemma decimal_of_below: "c < 48 \<Longrightarrow> decimal_of c = None"
  by (simp add: decimal_of_def digit_zeros_def)

lemma py_int_1234: "py_int (u ''1234'') = Inr 1234"
  by (simp add: py_int_def u_def py_strip_def is_space_def is_digit_def underscore_def
      int_max_str_digits_def digits_value_def decimal_of_ascii)

lemma py_int_minus_5: "py_int (u ''-5'') = Inr (- 5)"
  by (simp add: py_int_def u_def py_strip_def is_space_def is_digit_def underscore_def
      int_max_str_digits_def digits_value_def decimal_of_ascii)

text \<open>The separators 28 to 31 are not dropped: \<^verbatim>\<open>int('5\x1f')\<close> raises.\<close>

lemma py_int_unit_separator: "py_int [53, 31] = Inl ValueError"
  by (simp add: py_int_def py_strip_def is_space_def is_digit_def underscore_def
      decimal_of_ascii decimal_of_below)


text \<open>
  C8, as the code has it. The size \<^verbatim>\<open>_get_remote_file_size\<close> returns, which
  \<^verbatim>\<open>run_backup\<close> stores in the record, is an integer. It is 0 when the probe fails (the
  request raises), when the answer has no \<^verbatim>\<open>content-length\<close> header, and when
  \<^verbatim>\<open>int\<close> rejects the value of the header. Otherwise it is the integer the value
  denotes, which is non-negative unless the value, white space apart, starts with a
  minus sign.
\<close>

theorem get_remote_file_size_result:
  "(http_script w = [] \<longrightarrow> fst (get_remote_file_size image_url w) = 0)
 \<and> (\<forall>e rest. http_script w = Inl e # rest \<longrightarrow> fst (get_remote_file_size image_url w) = 0)
 \<and> (\<forall>r rest. http_script w = Inr r # rest \<and> map_of (headers r) (u ''content-length'') = None
        \<longrightarrow> fst (get_remote_file_size image_url w) = 0)
 \<and> (\<forall>r rest v e. http_script w = Inr r # rest
        \<and> map_of (headers r) (u ''content-length'') = Some v \<and> py_int v = Inl e
        \<longrightarrow> fst (get_remote_file_size image_url w) = 0)
 \<and> (\<forall>r rest v n. http_script w = Inr r # rest
        \<and> map_of (headers r) (u ''content-length'') = Some v \<and> py_int v = Inr n
        \<longrightarrow> fst (get_remote_file_size image_url w) = n
            \<and> (\<not> prefix (u ''-'') (py_strip v) \<longrightarrow> 0 \<le> n))"
  by (auto simp: get_remote_file_size_def http_call_def py_int_nonneg)

theorem get_remote_file_size_result_witness:
  "fst (get_remote_file_size (u ''https://cataas.com/cat/says/cat'')
          (world_of [headers_response 200 [(u ''content-length'', u ''1234'')]] [])) = 1234
   \<and> fst (get_remote_file_size (u ''https://cataas.com/cat/says/cat'')
          (world_of [headers_response 200 [(u ''content-length'', [53, 31])]] [])) = 0
   \<and> fst (get_remote_file_size (u ''https://cataas.com/cat/says/cat'')
          (world_of [headers_response 200 [(u ''content-type'', u ''image/jpeg'')]] [])) = 0"
proof -
  let ?r = "\<lparr>status_code = 200, headers = [(u ''content-length'', u ''1234'')],
              json_body = Inl ValueError\<rparr>"
  let ?r' = "\<lparr>status_code = 200, headers = [(u ''content-type'', u ''image/jpeg'')],
              json_body = Inl ValueError\<rparr>"
  let ?r'' = "\<lparr>status_code = 200, headers = [(u ''content-length'', [53, 31])],
              json_body = Inl ValueError\<rparr>"
  have a: "http_script (world_of [headers_response 200 [(u ''content-length'', u ''1234'')]] [])
           = Inr ?r # []"
    by (simp add: world_of_def headers_response_def)
  have b: "map_of (headers ?r) (u ''content-length'') = Some (u ''1234'')" by simp
  have a': "http_script (world_of [headers_response 200 [(u ''content-type'', u ''image/jpeg'')]] [])
           = Inr ?r' # []"
    by (simp add: world_of_def headers_response_def)
  have b': "map_of (headers ?r') (u ''content-length'') = None" by (simp add: u_def)
  have a'': "http_script (world_of [headers_response 200 [(u ''content-length'', [53, 31])]] [])
           = Inr ?r'' # []"
    by (simp add: world_of_def headers_response_def)
  have b'': "map_of (headers ?r'') (u ''content-length'') = Some [53, 31]" by simp
  from get_remote_file_size_result
    [of "world_of [headers_response 200 [(u ''content-length'', u ''1234'')]] []"
        "u ''https://cataas.com/cat/says/cat''"] a b py_int_1234
  have 1: "fst (get_remote_file_size (u ''https://cataas.com/cat/says/cat'')
          (world_of [headers_response 200 [(u ''content-length'', u ''1234'')]] [])) = 1234"
    by blast
  from get_remote_file_size_result
    [of "world_of [headers_response 200 [(u ''content-type'', u ''image/jpeg'')]] []"
        "u ''https://cataas.com/cat/says/cat''"] a' b'
  have 2: "fst (get_remote_file_size (u ''https://cataas.com/cat/says/cat'')
          (world_of [headers_response 200 [(u ''content-type'', u ''image/jpeg'')]] [])) = 0"
    by blast
  from get_remote_file_size_result
    [of "world_of [headers_response 200 [(u ''content-length'', [53, 31])]] []"
        "u ''https://cataas.com/cat/says/cat''"] a'' b'' py_int_unit_separator
  have 3: "fst (get_remote_file_size (u ''https://cataas.com/cat/says/cat'')
          (world_of [headers_response 200 [(u ''content-length'', [53, 31])]] [])) = 0"
    by blast
  from 1 2 3 show ?thesis by simp
qed

text \<open>
  A remote that answers the probe with \<^verbatim>\<open>Content-Length: -5\<close>: the size is \<open>-5\<close>.
\<close>

theorem get_remote_file_size_negative_counterexample:
  "fst (get_remote_file_size (u ''https://cataas.com/cat/says/cat'')
          (world_of [headers_response 200 [(u ''content-length'', u ''-5'')]] [])) = - 5"
proof -
  from py_int_minus_5 show ?thesis
    by (simp add: get_remote_file_size_def http_call_def world_of_def headers_response_def)
qed

section \<open>After the upload: the record and the JSON file\<close>



text \<open>
  In any namespace, a run of \<open>run_backup_try\<close> whose stages succeed through the upload
  goes on with \<open>run_backup_after_upload\<close>.
\<close>

lemma run_backup_try_after_upload:
  assumes "call_global ns (u ''CataasClient'') CataasClient = Inr ()"
    and "get_cat_image_url text w = (Inr (Some image_url), w1)"
    and "call_global ns (u ''YandexDiskUploader'') YandexDiskClient = Inr ()"
    and "create_folder (YandexDiskClient_init yandex_token) (netology_group self) w1 = (Inr True, w2)"
    and "upload_by_url (YandexDiskClient_init yandex_token) image_url
           (netology_group self @ u ''/'' @ sanitize_filename text @ u ''.jpg'') w2 = (Inr True, w3)"
  shows "run_backup_try ns self text yandex_token w =
           run_backup_after_upload ns self text image_url (sanitize_filename text @ u ''.jpg'')
             (netology_group self @ u ''/'' @ sanitize_filename text @ u ''.jpg'') w3"
proof -
  have "image_url \<noteq> []" using get_cat_image_url_cases(3) [OF assms(2)] by simp
  then show ?thesis
    using assms unfolding run_backup_try_def run_backup_after_upload_def
    by (simp add: Let_def)
qed




end
